theory Spec2Isabelle
  imports Main "HOL-Library.Word" "HOL-Library.AList"
begin

unbundle bit_operations_syntax

section \<open>Values, files and the environment of the cache\<close>

text \<open>
  The cache of \<^verbatim>\<open>src/cache.ts\<close> stores JSON documents in one directory, one file per
  key. The data it stores are JSON values; numbers are modelled as integers (timestamps
  and TTLs are integer milliseconds), so floating point is outside this model.
  An object is an association list in the order in which JavaScript enumerates its
  properties.
\<close>

datatype json =
    JNull
  | JBool bool
  | JNum int
  | JStr string
  | JArr "json list"
  | JObj "(string \<times> json) list"

text \<open>
  What a JavaScript expression of the cache evaluates to: a JSON value, or
  \<^verbatim>\<open>undefined\<close> (a missing property, the result of a \<^verbatim>\<open>void\<close> method).
  The \<^verbatim>\<open>null\<close> that \<^verbatim>\<open>get\<close> returns on a miss is the value \<open>Val JNull\<close>.
\<close>

datatype jsval = Undefined | Val json

text \<open>A JavaScript number as the expiry test sees it: an integer, or NaN.\<close>

datatype jsnum = NaN | Num int

text \<open>
  The documents that the cache itself writes: an entry \<^verbatim>\<open>{data, timestamp, ttl}\<close>
  (interface \<^verbatim>\<open>CacheEntry\<close>) and the metadata \<^verbatim>\<open>{totalEntries, lastCleanup}\<close>
  (interface \<^verbatim>\<open>CacheMetadata\<close>). A file holds the text of one of them, or text on
  which reading it as an entry throws (\<open>Garbage\<close>: truncated or corrupt JSON).
  \<^verbatim>\<open>JSON.stringify\<close> and \<^verbatim>\<open>JSON.parse\<close> are the library's; on these documents
  parsing the written text gives the document back.
\<close>

datatype doc =
    Entry json int int
  | Meta nat int

datatype content = Doc doc | Garbage

datatype exn =
    ENOENT string
  | SyntaxError
  | Rejected string

text \<open>Property reads on a parsed document, as JavaScript evaluates them.\<close>

fun entry_data :: "doc \<Rightarrow> jsval" where
  "entry_data (Entry d t l) = Val d"
| "entry_data (Meta n t) = Undefined"

fun entry_timestamp :: "doc \<Rightarrow> jsnum" where
  "entry_timestamp (Entry d t l) = Num t"
| "entry_timestamp (Meta n t) = NaN"

fun entry_ttl :: "doc \<Rightarrow> jsnum" where
  "entry_ttl (Entry d t l) = Num l"
| "entry_ttl (Meta n t) = NaN"

text \<open>
  \<^verbatim>\<open>now - x\<close> and \<^verbatim>\<open>a > b\<close> on numbers: NaN
  propagates, every comparison with NaN is false.
\<close>

fun js_sub :: "int \<Rightarrow> jsnum \<Rightarrow> jsnum" where
  "js_sub n (Num t) = Num (n - t)"
| "js_sub n NaN = NaN"

fun js_gt :: "jsnum \<Rightarrow> jsnum \<Rightarrow> bool" where
  "js_gt (Num a) (Num b) = (a > b)"
| "js_gt a b = False"

text \<open>The lines written with \<^verbatim>\<open>console.error\<close>, as data.\<close>

datatype event =
    Info_Created_cache_directory
  | Debug_Cache_miss string
  | Debug_Cache_expired string jsnum jsnum
  | Debug_Cache_hit string jsnum jsnum
  | Error_Failed_to_read string exn
  | Debug_Cache_set string int
  | Error_Failed_to_write string exn
  | Debug_Cache_deleted string
  | Error_Failed_to_delete string exn
  | Info_Cache_cleared nat
  | Error_Failed_to_clear exn
  | Warn_Invalid_cache_file string
  | Info_Cache_cleanup nat
  | Error_Failed_to_cleanup exn
  | Error_Failed_to_update_metadata exn
  | Error_Failed_to_get_stats exn
  | Debug_Executing_operation string

text \<open>
  The environment: the cache directory (\<open>None\<close> when it does not exist, otherwise its
  files by name, in listing order), the clock that \<^verbatim>\<open>Date.now()\<close> reads, and the console.
  A path is taken relative to the cache directory: \<^verbatim>\<open>path.join\<close> of the directory
  and a name is the name itself here.
\<close>

record world =
  dir :: "(string \<times> content) list option"
  clock :: int
  console :: "event list"

record CacheManager =
  cacheDir :: string
  defaultTTL :: int

record CacheStats =
  totalEntries :: nat
  stats_cacheDir :: string
  stats_defaultTTL :: int

type_synonym 'a io = "world \<Rightarrow> (exn + 'a) \<times> world"

definition io_return :: "'a \<Rightarrow> 'a io" where
  "io_return x = (\<lambda>s. (Inr x, s))"

definition io_throw :: "exn \<Rightarrow> 'a io" where
  "io_throw e = (\<lambda>s. (Inl e, s))"

definition io_bind :: "'a io \<Rightarrow> ('a \<Rightarrow> 'b io) \<Rightarrow> 'b io" where
  "io_bind m f = (\<lambda>s. case m s of (Inl e, s') \<Rightarrow> (Inl e, s') | (Inr x, s') \<Rightarrow> f x s')"

definition try_catch :: "'a io \<Rightarrow> (exn \<Rightarrow> 'a io) \<Rightarrow> 'a io" where
  "try_catch body handler =
     (\<lambda>s. case body s of (Inl e, s') \<Rightarrow> handler e s' | (Inr x, s') \<Rightarrow> (Inr x, s'))"

subsection \<open>The file system and the other library calls\<close>

text \<open>
  A file of the cache directory is named by a single path component (paths are POSIX
  paths). A name with a separator is a path into a subdirectory, and the cache directory has none (the
  cache writes files into the directory itself only): no file exists under such a
  name, and none can be created. The segments \<^verbatim>\<open>.\<close> and \<^verbatim>\<open>..\<close> of a path are not
  resolved.
\<close>

definition is_file_name :: "string \<Rightarrow> bool" where
  "is_file_name name = (CHR ''/'' \<notin> set name)"

text \<open>What the directory holds under a name.\<close>

definition lookup :: "world \<Rightarrow> string \<Rightarrow> content option" where
  "lookup s name =
     (case dir s of
        None \<Rightarrow> None
      | Some fs \<Rightarrow> if is_file_name name then map_of fs name else None)"

definition existsSync :: "string \<Rightarrow> bool io" where
  "existsSync name = (\<lambda>s. (Inr (lookup s name \<noteq> None), s))"

definition readFileSync :: "string \<Rightarrow> content io" where
  "readFileSync name =
     (\<lambda>s. case lookup s name of
        None \<Rightarrow> (Inl (ENOENT name), s)
      | Some f \<Rightarrow> (Inr f, s))"

definition writeFileSync :: "string \<Rightarrow> content \<Rightarrow> unit io" where
  "writeFileSync name f =
     (\<lambda>s. case dir s of
        None \<Rightarrow> (Inl (ENOENT name), s)
      | Some fs \<Rightarrow> (if is_file_name name
                   then (Inr (), s\<lparr>dir := Some (AList.update name f fs)\<rparr>)
                   else (Inl (ENOENT name), s)))"

definition unlinkSync :: "string \<Rightarrow> unit io" where
  "unlinkSync name =
     (\<lambda>s. case dir s of
        None \<Rightarrow> (Inl (ENOENT name), s)
      | Some fs \<Rightarrow> (if lookup s name \<noteq> None
                   then (Inr (), s\<lparr>dir := Some (AList.delete name fs)\<rparr>)
                   else (Inl (ENOENT name), s)))"

definition readdirSync :: "string list io" where
  "readdirSync =
     (\<lambda>s. case dir s of
        None \<Rightarrow> (Inl (ENOENT ''''), s)
      | Some fs \<Rightarrow> (Inr (map fst fs), s))"

definition mkdirSync :: "unit io" where
  "mkdirSync = (\<lambda>s. (Inr (), (case dir s of None \<Rightarrow> s\<lparr>dir := Some []\<rparr> | Some fs \<Rightarrow> s)))"

definition JSON_parse :: "content \<Rightarrow> doc io" where
  "JSON_parse f = (case f of Doc d \<Rightarrow> io_return d | Garbage \<Rightarrow> io_throw SyntaxError)"

definition JSON_stringify :: "doc \<Rightarrow> content" where
  "JSON_stringify d = Doc d"

definition Date_now :: "int io" where
  "Date_now = (\<lambda>s. (Inr (clock s), s))"

definition console_error :: "event \<Rightarrow> unit io" where
  "console_error ev = (\<lambda>s. (Inr (), s\<lparr>console := console s @ [ev]\<rparr>))"

text \<open>Time passing between two calls.\<close>

definition tick :: "nat \<Rightarrow> world \<Rightarrow> world" where
  "tick d s = s\<lparr>clock := clock s + int d\<rparr>"

text \<open>\<^verbatim>\<open>String.prototype.endsWith\<close>.\<close>

definition endsWith :: "string \<Rightarrow> string \<Rightarrow> bool" where
  "endsWith s suf = (length suf \<le> length s \<and> drop (length s - length suf) s = suf)"

section \<open>The cache manager\<close>

definition metadataPath :: string where
  "metadataPath = ''.metadata.json''"

definition existsSync_cacheDir :: "bool io" where
  "existsSync_cacheDir = (\<lambda>s. (Inr (dir s \<noteq> None), s))"

definition ensureCacheDir :: "unit io" where
  "ensureCacheDir =
     io_bind existsSync_cacheDir (\<lambda>present.
       if \<not> present
       then io_bind mkdirSync (\<lambda>_. console_error Info_Created_cache_directory)
       else io_return ())"

definition getCacheFilePath :: "string \<Rightarrow> string" where
  "getCacheFilePath key = key @ ''.json''"

text \<open>
  The test of \<^verbatim>\<open>clear\<close>, \<^verbatim>\<open>cleanup\<close>,
  \<^verbatim>\<open>updateMetadata\<close> and \<^verbatim>\<open>getStats\<close> on a
  listed name.
\<close>

definition is_cache_file :: "string \<Rightarrow> bool" where
  "is_cache_file file = (endsWith file ''.json'' \<and> file \<noteq> ''.metadata.json'')"

definition updateMetadata :: "unit io" where
  "updateMetadata =
     try_catch
       (io_bind readdirSync (\<lambda>files.
        io_bind Date_now (\<lambda>now.
          writeFileSync metadataPath
            (JSON_stringify (Meta (length (filter is_cache_file files)) now)))))
       (\<lambda>error. console_error (Error_Failed_to_update_metadata error))"

definition delete :: "string \<Rightarrow> jsval io" where
  "delete key =
     try_catch
       (io_bind (existsSync (getCacheFilePath key)) (\<lambda>present.
          if present
          then io_bind (unlinkSync (getCacheFilePath key)) (\<lambda>_.
               io_bind (console_error (Debug_Cache_deleted key)) (\<lambda>_. io_return Undefined))
          else io_return Undefined))
       (\<lambda>error. io_bind (console_error (Error_Failed_to_delete key error)) (\<lambda>_.
          io_return Undefined))"

definition get :: "string \<Rightarrow> jsval io" where
  "get key =
     try_catch
       (io_bind (existsSync (getCacheFilePath key)) (\<lambda>present.
          if \<not> present
          then io_bind (console_error (Debug_Cache_miss key)) (\<lambda>_. io_return (Val JNull))
          else
            io_bind (readFileSync (getCacheFilePath key)) (\<lambda>fileContent.
            io_bind (JSON_parse fileContent) (\<lambda>entry.
            io_bind Date_now (\<lambda>now.
              if js_gt (js_sub now (entry_timestamp entry)) (entry_ttl entry)
              then
                io_bind (console_error
                  (Debug_Cache_expired key (js_sub now (entry_timestamp entry)) (entry_ttl entry))) (\<lambda>_.
                io_bind (delete key) (\<lambda>_. io_return (Val JNull)))
              else
                io_bind (console_error
                  (Debug_Cache_hit key (js_sub now (entry_timestamp entry)) (entry_ttl entry))) (\<lambda>_.
                io_return (entry_data entry)))))))
       (\<lambda>error. io_bind (console_error (Error_Failed_to_read key error)) (\<lambda>_.
          io_return (Val JNull)))"

text \<open>
  \<^verbatim>\<open>ttl || this.defaultTTL\<close>: an omitted TTL and the TTL 0 are
  falsy.
\<close>

definition ttl_or_default :: "int option \<Rightarrow> int \<Rightarrow> int" where
  "ttl_or_default ttl dflt = (case ttl of None \<Rightarrow> dflt | Some t \<Rightarrow> if t = 0 then dflt else t)"

definition set_entry :: "CacheManager \<Rightarrow> string \<Rightarrow> json \<Rightarrow> int option \<Rightarrow> jsval io" where
  "set_entry this key d ttl =
     try_catch
       (io_bind Date_now (\<lambda>now.
        io_bind (writeFileSync (getCacheFilePath key)
                   (JSON_stringify (Entry d now (ttl_or_default ttl (defaultTTL this))))) (\<lambda>_.
        io_bind (console_error
                   (Debug_Cache_set key (ttl_or_default ttl (defaultTTL this)))) (\<lambda>_.
        io_bind updateMetadata (\<lambda>_. io_return Undefined)))))
       (\<lambda>error. io_bind (console_error (Error_Failed_to_write key error)) (\<lambda>_.
          io_return Undefined))"

fun clear_loop :: "string list \<Rightarrow> nat \<Rightarrow> nat io" where
  "clear_loop [] deletedCount = io_return deletedCount"
| "clear_loop (file # files) deletedCount =
     (if is_cache_file file
      then io_bind (unlinkSync file) (\<lambda>_. clear_loop files (deletedCount + 1))
      else clear_loop files deletedCount)"

definition clear :: "jsval io" where
  "clear =
     try_catch
       (io_bind readdirSync (\<lambda>files.
        io_bind (clear_loop files 0) (\<lambda>deletedCount.
        io_bind (console_error (Info_Cache_cleared deletedCount)) (\<lambda>_.
        io_bind updateMetadata (\<lambda>_. io_return Undefined)))))
       (\<lambda>error. io_bind (console_error (Error_Failed_to_clear error)) (\<lambda>_.
          io_return Undefined))"

text \<open>
  The body of the loop of \<^verbatim>\<open>cleanup\<close> for one cache file, with its
  inner try and catch.
\<close>

definition cleanup_file :: "int \<Rightarrow> string \<Rightarrow> nat \<Rightarrow> nat io" where
  "cleanup_file now file deletedCount =
     try_catch
       (io_bind (readFileSync file) (\<lambda>fileContent.
        io_bind (JSON_parse fileContent) (\<lambda>entry.
          if js_gt (js_sub now (entry_timestamp entry)) (entry_ttl entry)
          then io_bind (unlinkSync file) (\<lambda>_. io_return (deletedCount + 1))
          else io_return deletedCount)))
       (\<lambda>error. io_bind (console_error (Warn_Invalid_cache_file file)) (\<lambda>_.
        io_bind (unlinkSync file) (\<lambda>_. io_return (deletedCount + 1))))"

fun cleanup_loop :: "int \<Rightarrow> string list \<Rightarrow> nat \<Rightarrow> nat io" where
  "cleanup_loop now [] deletedCount = io_return deletedCount"
| "cleanup_loop now (file # files) deletedCount =
     (if is_cache_file file
      then io_bind (cleanup_file now file deletedCount) (cleanup_loop now files)
      else cleanup_loop now files deletedCount)"

definition cleanup :: "jsval io" where
  "cleanup =
     try_catch
       (io_bind readdirSync (\<lambda>files.
        io_bind Date_now (\<lambda>now.
        io_bind (cleanup_loop now files 0) (\<lambda>deletedCount.
          if deletedCount > 0
          then io_bind (console_error (Info_Cache_cleanup deletedCount)) (\<lambda>_.
               io_bind updateMetadata (\<lambda>_. io_return Undefined))
          else io_return Undefined))))
       (\<lambda>error. io_bind (console_error (Error_Failed_to_cleanup error)) (\<lambda>_.
          io_return Undefined))"

definition getStats :: "CacheManager \<Rightarrow> CacheStats io" where
  "getStats this =
     try_catch
       (io_bind readdirSync (\<lambda>files.
          io_return \<lparr>totalEntries = length (filter is_cache_file files),
                     stats_cacheDir = cacheDir this,
                     stats_defaultTTL = defaultTTL this\<rparr>))
       (\<lambda>error. io_bind (console_error (Error_Failed_to_get_stats error)) (\<lambda>_.
          io_return \<lparr>totalEntries = 0,
                     stats_cacheDir = cacheDir this,
                     stats_defaultTTL = defaultTTL this\<rparr>))"

text \<open>
  The producer passed to \<^verbatim>\<open>getOrSet\<close> is the caller's: it has a state of its own (the
  exchange, a call counter), it resolves to a JSON value or rejects with an error, and
  it takes some time, by which the clock has advanced when \<^verbatim>\<open>await\<close> returns. The calls
  of one \<^verbatim>\<open>getOrSet\<close> run in sequence here; no other task runs in between.
\<close>

type_synonym 'p operation = "'p \<Rightarrow> (exn + json) \<times> nat \<times> 'p"

definition getOrSet ::
  "CacheManager \<Rightarrow> string \<Rightarrow> 'p operation \<Rightarrow> int option \<Rightarrow> world \<times> 'p
     \<Rightarrow> (exn + jsval) \<times> world \<times> 'p" where
  "getOrSet this key operation ttl = (\<lambda>(s, p).
     case get key s of
       (Inl e, s1) \<Rightarrow> (Inl e, s1, p)
     | (Inr cached, s1) \<Rightarrow>
         if cached \<noteq> Val JNull then (Inr cached, s1, p)
         else
           (case console_error (Debug_Executing_operation key) s1 of (_, s2) \<Rightarrow>
            (case operation p of
               (Inl e, d, p') \<Rightarrow> (Inl e, tick d s2, p')
             | (Inr result, d, p') \<Rightarrow>
                 (case set_entry this key result ttl (tick d s2) of
                    (Inl e, s3) \<Rightarrow> (Inl e, s3, p')
                  | (Inr _, s3) \<Rightarrow> (Inr (Val result), s3, p')))))"

section \<open>Notions for the properties\<close>

text \<open>An empty cache directory at time 1000, for the examples.\<close>

definition world0 :: world where
  "world0 = \<lparr>dir = Some [], clock = 1000, console = []\<rparr>"

text \<open>
  The state after the line that \<^verbatim>\<open>getOrSet\<close> logs before it calls
  the producer.
\<close>

definition executing :: "string \<Rightarrow> world \<Rightarrow> world" where
  "executing key s = s\<lparr>console := console s @ [Debug_Executing_operation key]\<rparr>"

text \<open>
  The value \<^verbatim>\<open>get\<close> returns, by the content of the key's file and
  the clock.
\<close>

fun get_value :: "content option \<Rightarrow> int \<Rightarrow> jsval" where
  "get_value None now = Val JNull"
| "get_value (Some Garbage) now = Val JNull"
| "get_value (Some (Doc e)) now =
     (if js_gt (js_sub now (entry_timestamp e)) (entry_ttl e) then Val JNull else entry_data e)"

text \<open>
  Producers for the examples: one that counts its calls and resolves to a fixed value, one
  that rejects.
\<close>

definition counting :: "json \<Rightarrow> nat operation" where
  "counting v = (\<lambda>n. (Inr v, 0, Suc n))"

definition rejecting :: "string \<Rightarrow> nat operation" where
  "rejecting msg = (\<lambda>n. (Inl (Rejected msg), 0, Suc n))"

text \<open>The manager of the repository's test script: a default TTL of ten seconds.\<close>

definition this0 :: CacheManager where
  "this0 = \<lparr>cacheDir = ''/tmp/ccxt-mcp-cache-test'', defaultTTL = 10000\<rparr>"

text \<open>
  An entry file that \<^verbatim>\<open>cleanup\<close> removes: unparsable, or its TTL
  has lapsed at \<open>now\<close>.
\<close>

fun stale :: "int \<Rightarrow> content \<Rightarrow> bool" where
  "stale now Garbage = True"
| "stale now (Doc e) = js_gt (js_sub now (entry_timestamp e)) (entry_ttl e)"

definition stale_at :: "int \<Rightarrow> (string \<times> content) list \<Rightarrow> string \<Rightarrow> bool" where
  "stale_at now fs name = (case map_of fs name of None \<Rightarrow> False | Some f \<Rightarrow> stale now f)"

text \<open>
  What the loop of \<^verbatim>\<open>cleanup\<close> over the listed \<open>names\<close>
  leaves of the directory \<open>fs\<close>, how many files it unlinks, and the warnings
  it logs.
\<close>

definition swept :: "int \<Rightarrow> string list \<Rightarrow> (string \<times> content) list \<Rightarrow> (string \<times> content) list" where
  "swept now names fs =
     filter (\<lambda>(nm, f). \<not> (nm \<in> set names \<and> is_cache_file nm \<and> stale_at now fs nm)) fs"

definition sweep_count :: "int \<Rightarrow> string list \<Rightarrow> (string \<times> content) list \<Rightarrow> nat" where
  "sweep_count now names fs = length (filter (\<lambda>nm. is_cache_file nm \<and> stale_at now fs nm) names)"

definition sweep_warnings :: "string list \<Rightarrow> (string \<times> content) list \<Rightarrow> event list" where
  "sweep_warnings names fs =
     map Warn_Invalid_cache_file
       (filter (\<lambda>nm. is_cache_file nm \<and> map_of fs nm = Some Garbage) names)"

text \<open>
  The scenario of the specification: three entries whose TTL has lapsed at time 1000 and
  two live ones; and the directory with the two live entries and the metadata file.
\<close>

definition world5 :: world where
  "world5 = \<lparr>dir = Some [(''a.json'', Doc (Entry (JNum 1) 0 50)),
                         (''b.json'', Doc (Entry (JNum 2) 0 50)),
                         (''c.json'', Doc (Entry (JNum 3) 900 50)),
                         (''d.json'', Doc (Entry (JNum 4) 900 5000)),
                         (''e.json'', Doc (Entry (JNum 5) 1000 5000))],
             clock = 1000, console = []\<rparr>"

definition world2 :: world where
  "world2 = \<lparr>dir = Some [(''d.json'', Doc (Entry (JNum 4) 900 5000)),
                         (''e.json'', Doc (Entry (JNum 5) 1000 5000)),
                         (''.metadata.json'', Doc (Meta 2 1000))],
             clock = 1000, console = []\<rparr>"

section \<open>Cache keys\<close>

text \<open>
  \<^verbatim>\<open>JSON.stringify\<close> without indentation, as \<^verbatim>\<open>generateCacheKey\<close> calls it: the members
  of an object in the object's own enumeration order, strings quoted and escaped.
  Strings are byte strings here (the UTF-8 bytes that the digest is computed over);
  an integer prints in decimal.
\<close>

definition hexdigit :: "nat \<Rightarrow> char" where
  "hexdigit n = ''0123456789abcdef'' ! (n mod 16)"

definition escape_char :: "char \<Rightarrow> string" where
  "escape_char c =
     (if c = CHR 0x22 then [CHR 0x5C, CHR 0x22]
      else if c = CHR 0x5C then [CHR 0x5C, CHR 0x5C]
      else if c = CHR 0x08 then [CHR 0x5C, CHR ''b'']
      else if c = CHR 0x0C then [CHR 0x5C, CHR ''f'']
      else if c = CHR 0x0A then [CHR 0x5C, CHR ''n'']
      else if c = CHR 0x0D then [CHR 0x5C, CHR ''r'']
      else if c = CHR 0x09 then [CHR 0x5C, CHR ''t'']
      else if (of_char c :: nat) < 32
        then [CHR 0x5C, CHR ''u'', CHR ''0'', CHR ''0'',
              hexdigit (of_char c div 16), hexdigit (of_char c mod 16)]
      else [c])"

definition quote :: "string \<Rightarrow> string" where
  "quote s = [CHR 0x22] @ concat (map escape_char s) @ [CHR 0x22]"

function show_nat :: "nat \<Rightarrow> string" where
  "show_nat n = (if n < 10 then [hexdigit n] else show_nat (n div 10) @ [hexdigit (n mod 10)])"
  by pat_completeness auto
termination
  by (relation "measure id") auto

declare show_nat.simps [simp del]

definition show_int :: "int \<Rightarrow> string" where
  "show_int i = (if i < 0 then CHR ''-'' # show_nat (nat (- i)) else show_nat (nat i))"

fun stringify :: "json \<Rightarrow> string"
  and stringify_elements :: "json list \<Rightarrow> string"
  and stringify_members :: "(string \<times> json) list \<Rightarrow> string" where
  "stringify JNull = ''null''"
| "stringify (JBool b) = (if b then ''true'' else ''false'')"
| "stringify (JNum n) = show_int n"
| "stringify (JStr s) = quote s"
| "stringify (JArr xs) = ''['' @ stringify_elements xs @ '']''"
| "stringify (JObj ps) = ''{'' @ stringify_members ps @ ''}''"
| "stringify_elements [] = []"
| "stringify_elements [x] = stringify x"
| "stringify_elements (x # y # xs) = stringify x @ '','' @ stringify_elements (y # xs)"
| "stringify_members [] = []"
| "stringify_members [(k, v)] = quote k @ '':'' @ stringify v"
| "stringify_members ((k, v) # p # ps) =
     quote k @ '':'' @ stringify v @ '','' @ stringify_members (p # ps)"

subsection \<open>SHA-256\<close>

text \<open>
  The digest of \<^verbatim>\<open>crypto.createHash("sha256")\<close>, on 32-bit words: the message is padded
  to whole 64-byte blocks, each block is sixteen big-endian words, and every block
  runs the 64 rounds of the compression function over a sliding window of the
  message schedule.
\<close>

type_synonym w32 = "32 word"

type_synonym hstate = "w32 \<times> w32 \<times> w32 \<times> w32 \<times> w32 \<times> w32 \<times> w32 \<times> w32"

definition rotr :: "nat \<Rightarrow> w32 \<Rightarrow> w32" where
  "rotr n x = (drop_bit n x) OR (push_bit (32 - n) x)"

definition Ch :: "w32 \<Rightarrow> w32 \<Rightarrow> w32 \<Rightarrow> w32" where
  "Ch x y z = (x AND y) XOR (NOT x AND z)"

definition Maj :: "w32 \<Rightarrow> w32 \<Rightarrow> w32 \<Rightarrow> w32" where
  "Maj x y z = (x AND y) XOR (x AND z) XOR (y AND z)"

definition bsig0 :: "w32 \<Rightarrow> w32" where
  "bsig0 x = rotr 2 x XOR rotr 13 x XOR rotr 22 x"

definition bsig1 :: "w32 \<Rightarrow> w32" where
  "bsig1 x = rotr 6 x XOR rotr 11 x XOR rotr 25 x"

definition ssig0 :: "w32 \<Rightarrow> w32" where
  "ssig0 x = rotr 7 x XOR rotr 18 x XOR drop_bit 3 x"

definition ssig1 :: "w32 \<Rightarrow> w32" where
  "ssig1 x = rotr 17 x XOR rotr 19 x XOR drop_bit 10 x"

text \<open>
  The round constants are the first 32 bits of the fractional parts of the cube roots
  of the first 64 primes, and the initial state those of the square roots of the first
  8 primes.
\<close>

definition K256 :: "w32 list" where
  "K256 =
    [1116352408, 1899447441, 3049323471, 3921009573, 961987163, 1508970993,
     2453635748, 2870763221, 3624381080, 310598401, 607225278, 1426881987,
     1925078388, 2162078206, 2614888103, 3248222580, 3835390401, 4022224774,
     264347078, 604807628, 770255983, 1249150122, 1555081692, 1996064986,
     2554220882, 2821834349, 2952996808, 3210313671, 3336571891, 3584528711,
     113926993, 338241895, 666307205, 773529912, 1294757372, 1396182291,
     1695183700, 1986661051, 2177026350, 2456956037, 2730485921, 2820302411,
     3259730800, 3345764771, 3516065817, 3600352804, 4094571909, 275423344,
     430227734, 506948616, 659060556, 883997877, 958139571, 1322822218,
     1537002063, 1747873779, 1955562222, 2024104815, 2227730452, 2361852424,
     2428436474, 2756734187, 3204031479, 3329325298]"

definition H256 :: hstate where
  "H256 = (1779033703, 3144134277, 1013904242, 2773480762,
           1359893119, 2600822924, 528734635, 1541459225)"

text \<open>The next word of the message schedule, from the window of the last sixteen.\<close>

definition next_w :: "w32 list \<Rightarrow> w32" where
  "next_w win = ssig1 (win ! 14) + win ! 9 + ssig0 (win ! 1) + win ! 0"

fun shuffle :: "w32 \<Rightarrow> w32 \<Rightarrow> hstate \<Rightarrow> hstate" where
  "shuffle t1 t2 (a, b, c, d, e, f, g, h) = (t1 + t2, a, b, c, d + t1, e, f, g)"

fun round1 :: "w32 \<Rightarrow> w32 \<Rightarrow> hstate \<Rightarrow> hstate" where
  "round1 k w (a, b, c, d, e, f, g, h) =
     shuffle (h + bsig1 e + Ch e f g + k + w) (bsig0 a + Maj a b c) (a, b, c, d, e, f, g, h)"

fun rounds :: "w32 list \<Rightarrow> w32 list \<Rightarrow> hstate \<Rightarrow> hstate" where
  "rounds [] win st = st"
| "rounds (k # ks) win st = rounds ks (tl win @ [next_w win]) (round1 k (hd win) st)"

fun add8 :: "hstate \<Rightarrow> hstate \<Rightarrow> hstate" where
  "add8 (a, b, c, d, e, f, g, h) (a', b', c', d', e', f', g', h') =
     (a + a', b + b', c + c', d + d', e + e', f + f', g + g', h + h')"

definition compress :: "hstate \<Rightarrow> w32 list \<Rightarrow> hstate" where
  "compress st block = add8 st (rounds K256 block st)"

function blocks :: "hstate \<Rightarrow> w32 list \<Rightarrow> hstate" where
  "blocks st ws =
     (if length ws < 16 then st else blocks (compress st (take 16 ws)) (drop 16 ws))"
  by pat_completeness auto
termination
  by (relation "measure (\<lambda>(st, ws). length ws)") auto

declare blocks.simps [simp del]

fun be32 :: "8 word list \<Rightarrow> w32 list" where
  "be32 (a # b # c # d # bs) =
     (push_bit 24 (ucast a) OR push_bit 16 (ucast b) OR push_bit 8 (ucast c) OR ucast d) # be32 bs"
| "be32 bs = []"

definition pad :: "8 word list \<Rightarrow> 8 word list" where
  "pad m =
     m @ [0x80] @ replicate ((119 - length m mod 64) mod 64) 0
       @ map (\<lambda>i. ucast (drop_bit (8 * i) (word_of_nat (8 * length m) :: 64 word)))
           [7, 6, 5, 4, 3, 2, 1, 0]"

definition hex32 :: "w32 \<Rightarrow> string" where
  "hex32 w = map (\<lambda>i. hexdigit (unat (drop_bit (4 * i) w AND 15))) [7, 6, 5, 4, 3, 2, 1, 0]"

fun hex_digest :: "hstate \<Rightarrow> string" where
  "hex_digest (a, b, c, d, e, f, g, h) =
     hex32 a @ hex32 b @ hex32 c @ hex32 d @ hex32 e @ hex32 f @ hex32 g @ hex32 h"

definition sha256 :: "string \<Rightarrow> string" where
  "sha256 s = hex_digest (blocks H256 (be32 (pad (map of_char s))))"

subsection \<open>The key of a request\<close>

text \<open>
  \<^verbatim>\<open>params || {}\<close>: omitted parameters are the empty object. The parameters are an
  object, given by its members in enumeration order.
\<close>

definition dataToHash :: "string \<Rightarrow> string \<Rightarrow> (string \<times> json) list option \<Rightarrow> string" where
  "dataToHash namespace identifier params =
     stringify (JObj [(''namespace'', JStr namespace),
                      (''identifier'', JStr identifier),
                      (''params'', JObj (case params of None \<Rightarrow> [] | Some ps \<Rightarrow> ps))])"

definition generateCacheKey :: "string \<Rightarrow> string \<Rightarrow> (string \<times> json) list option \<Rightarrow> string" where
  "generateCacheKey namespace identifier params =
     namespace @ ''_'' @ identifier @ ''_'' @ sha256 (dataToHash namespace identifier params)"

text \<open>
  A state in which the cache directory exists; as in every directory, no two of its files
  have the same name, and every name is a single path component.
\<close>

definition wf_dir :: "(string \<times> content) list \<Rightarrow> bool" where
  "wf_dir fs = (distinct (map fst fs) \<and> (\<forall>name \<in> set (map fst fs). is_file_name name))"

definition wf_world :: "world \<Rightarrow> bool" where
  "wf_world s = (case dir s of None \<Rightarrow> False | Some fs \<Rightarrow> wf_dir fs)"

section \<open>Running the operations\<close>

lemma is_file_name_metadataPath [simp]: "is_file_name metadataPath"
  by (simp add: is_file_name_def metadataPath_def)

lemma is_file_name_path [simp]: "is_file_name (getCacheFilePath k) \<longleftrightarrow> CHR ''/'' \<notin> set k"
  by (simp add: is_file_name_def getCacheFilePath_def)

lemma lookup_SomeD:
  "lookup s name = Some f \<Longrightarrow> \<exists>fs. dir s = Some fs \<and> map_of fs name = Some f \<and> is_file_name name"
  by (auto simp: lookup_def split: option.splits if_splits)

lemma lookup_dir: "dir s = Some fs \<Longrightarrow> is_file_name name \<Longrightarrow> lookup s name = map_of fs name"
  by (simp add: lookup_def)

lemmas io_defs = io_return_def io_throw_def io_bind_def try_catch_def existsSync_def
  readFileSync_def writeFileSync_def unlinkSync_def readdirSync_def JSON_parse_def
  JSON_stringify_def Date_now_def console_error_def

lemma in_fst_set_iff: "name \<in> fst ` set fs \<longleftrightarrow> map_of fs name \<noteq> None"
  by (simp add: map_of_eq_None_iff)

lemma delete_absent:
  "lookup s (getCacheFilePath key) = None \<Longrightarrow> delete key s = (Inr Undefined, s)"
  by (simp add: delete_def io_defs)

lemma delete_present:
  "dir s = Some fs \<Longrightarrow> lookup s (getCacheFilePath key) = Some f \<Longrightarrow>
   delete key s = (Inr Undefined,
     s\<lparr>dir := Some (AList.delete (getCacheFilePath key) fs),
       console := console s @ [Debug_Cache_deleted key]\<rparr>)"
  by (simp add: delete_def io_defs)

lemma get_absent:
  "lookup s (getCacheFilePath key) = None \<Longrightarrow>
   get key s = (Inr (Val JNull), s\<lparr>console := console s @ [Debug_Cache_miss key]\<rparr>)"
  by (simp add: get_def io_defs)

lemma get_garbage:
  "lookup s (getCacheFilePath key) = Some Garbage \<Longrightarrow>
   get key s = (Inr (Val JNull),
     s\<lparr>console := console s @ [Error_Failed_to_read key SyntaxError]\<rparr>)"
  by (simp add: get_def io_defs)

lemma get_expired:
  "dir s = Some fs \<Longrightarrow> lookup s (getCacheFilePath key) = Some (Doc e) \<Longrightarrow>
   js_gt (js_sub (clock s) (entry_timestamp e)) (entry_ttl e) \<Longrightarrow>
   get key s = (Inr (Val JNull),
     s\<lparr>dir := Some (AList.delete (getCacheFilePath key) fs),
       console := console s @
         [Debug_Cache_expired key (js_sub (clock s) (entry_timestamp e)) (entry_ttl e),
          Debug_Cache_deleted key]\<rparr>)"
  by (simp add: get_def delete_def io_defs lookup_def)

lemma get_live:
  "lookup s (getCacheFilePath key) = Some (Doc e) \<Longrightarrow>
   \<not> js_gt (js_sub (clock s) (entry_timestamp e)) (entry_ttl e) \<Longrightarrow>
   get key s = (Inr (entry_data e),
     s\<lparr>console := console s @
         [Debug_Cache_hit key (js_sub (clock s) (entry_timestamp e)) (entry_ttl e)]\<rparr>)"
  by (simp add: get_def io_defs)

lemma updateMetadata_no_dir:
  "dir s = None \<Longrightarrow>
   updateMetadata s = (Inr (),
     s\<lparr>console := console s @ [Error_Failed_to_update_metadata (ENOENT '''')]\<rparr>)"
  by (simp add: updateMetadata_def io_defs)

lemma updateMetadata_dir:
  "dir s = Some fs \<Longrightarrow>
   updateMetadata s = (Inr (),
     s\<lparr>dir := Some (AList.update metadataPath
        (Doc (Meta (length (filter is_cache_file (map fst fs))) (clock s))) fs)\<rparr>)"
  by (simp add: updateMetadata_def io_defs)

lemma set_entry_no_dir:
  "dir s = None \<Longrightarrow>
   set_entry this key d ttl s = (Inr Undefined,
     s\<lparr>console := console s @ [Error_Failed_to_write key (ENOENT (getCacheFilePath key))]\<rparr>)"
  by (simp add: set_entry_def io_defs)

lemma set_entry_bad_name:
  "dir s = Some fs \<Longrightarrow> \<not> is_file_name (getCacheFilePath key) \<Longrightarrow>
   set_entry this key d ttl s = (Inr Undefined,
     s\<lparr>console := console s @ [Error_Failed_to_write key (ENOENT (getCacheFilePath key))]\<rparr>)"
  by (simp add: set_entry_def io_defs)

lemma set_entry_dir:
  "dir s = Some fs \<Longrightarrow> is_file_name (getCacheFilePath key) \<Longrightarrow>
   set_entry this key d ttl s = (Inr Undefined,
     s\<lparr>dir := Some (AList.update metadataPath
          (Doc (Meta (length (filter is_cache_file
             (map fst (AList.update (getCacheFilePath key)
                (Doc (Entry d (clock s) (ttl_or_default ttl (defaultTTL this)))) fs)))) (clock s)))
          (AList.update (getCacheFilePath key)
             (Doc (Entry d (clock s) (ttl_or_default ttl (defaultTTL this)))) fs)),
       console := console s @ [Debug_Cache_set key (ttl_or_default ttl (defaultTTL this))]\<rparr>)"
  by (simp add: set_entry_def updateMetadata_def io_defs)

lemma get_cases:
  obtains (absent) "lookup s (getCacheFilePath key) = None"
    "get key s = (Inr (Val JNull), s\<lparr>console := console s @ [Debug_Cache_miss key]\<rparr>)"
  | (garbage) "lookup s (getCacheFilePath key) = Some Garbage"
    "get key s = (Inr (Val JNull),
       s\<lparr>console := console s @ [Error_Failed_to_read key SyntaxError]\<rparr>)"
  | (expired) fs e where "dir s = Some fs" "lookup s (getCacheFilePath key) = Some (Doc e)"
    "js_gt (js_sub (clock s) (entry_timestamp e)) (entry_ttl e)"
    "get key s = (Inr (Val JNull),
       s\<lparr>dir := Some (AList.delete (getCacheFilePath key) fs),
         console := console s @
           [Debug_Cache_expired key (js_sub (clock s) (entry_timestamp e)) (entry_ttl e),
            Debug_Cache_deleted key]\<rparr>)"
  | (live) e where "lookup s (getCacheFilePath key) = Some (Doc e)"
    "\<not> js_gt (js_sub (clock s) (entry_timestamp e)) (entry_ttl e)"
    "get key s = (Inr (entry_data e),
       s\<lparr>console := console s @
         [Debug_Cache_hit key (js_sub (clock s) (entry_timestamp e)) (entry_ttl e)]\<rparr>)"
proof (cases "lookup s (getCacheFilePath key)")
  case None
  then show ?thesis using absent get_absent by blast
next
  case (Some f)
  show ?thesis
  proof (cases f)
    case Garbage
    with Some show ?thesis using garbage get_garbage by blast
  next
    case (Doc e)
    with Some obtain fs where fs: "dir s = Some fs" "lookup s (getCacheFilePath key) = Some (Doc e)"
      using lookup_SomeD by blast
    show ?thesis
    proof (cases "js_gt (js_sub (clock s) (entry_timestamp e)) (entry_ttl e)")
      case True
      then show ?thesis using expired fs get_expired by blast
    next
      case False
      then show ?thesis using live Some Doc get_live by blast
    qed
  qed
qed

lemma get_returns: "\<exists>v s'. get key s = (Inr v, s')"
  by (rule get_cases [where s = s and key = key]) auto

lemma set_entry_returns: "\<exists>s'. set_entry this key d ttl s = (Inr Undefined, s')"
  by (cases "dir s"; cases "is_file_name (getCacheFilePath key)")
    (auto simp: set_entry_no_dir set_entry_dir set_entry_bad_name)

lemma writeFileSync_fails_iff:
  "isl (fst (writeFileSync name f s)) \<longleftrightarrow> dir s = None \<or> \<not> is_file_name name"
  by (simp add: writeFileSync_def split: option.splits)

lemma set_entry_write_fails:
  assumes "dir s = None \<or> \<not> is_file_name (getCacheFilePath key)"
  shows "fst (set_entry this key d ttl s) = Inr Undefined"
    and "dir (snd (set_entry this key d ttl s)) = dir s"
  using assms
  by (cases "dir s"; simp add: set_entry_no_dir set_entry_bad_name)+

section \<open>Failures inside the cache\<close>

text \<open>
  C5. Failures of the cache's own reads and writes never reach the caller. If the entry
  file of \<open>k\<close> exists but does not parse, \<^verbatim>\<open>get(k)\<close> returns the miss value
  \<^verbatim>\<open>null\<close>, and \<^verbatim>\<open>get\<close> never throws. If the write of the entry file fails
  during \<^verbatim>\<open>set(k, d, ttl)\<close>, \<^verbatim>\<open>set\<close> returns normally and the directory is as
  it was, and \<^verbatim>\<open>set\<close> never throws.
\<close>

theorem cache_failures_never_raise:
  "(lookup s (getCacheFilePath k) = Some Garbage \<longrightarrow> fst (get k s) = Inr (Val JNull))
   \<and> \<not> isl (fst (get k s))
   \<and> (isl (fst (writeFileSync (getCacheFilePath k)
           (JSON_stringify (Entry d (clock s) (ttl_or_default ttl (defaultTTL this)))) s)) \<longrightarrow>
        fst (set_entry this k d ttl s) = Inr Undefined
        \<and> dir (snd (set_entry this k d ttl s)) = dir s)
   \<and> \<not> isl (fst (set_entry this k d ttl s))"
proof -
  have a: "lookup s (getCacheFilePath k) = Some Garbage \<longrightarrow> fst (get k s) = Inr (Val JNull)"
    by (simp add: get_garbage)
  have b: "\<not> isl (fst (get k s))"
    using get_returns [of k s] by auto
  have c: "isl (fst (writeFileSync (getCacheFilePath k)
           (JSON_stringify (Entry d (clock s) (ttl_or_default ttl (defaultTTL this)))) s)) \<longrightarrow>
        fst (set_entry this k d ttl s) = Inr Undefined
        \<and> dir (snd (set_entry this k d ttl s)) = dir s"
    using set_entry_write_fails [of s k this d ttl] by (simp add: writeFileSync_fails_iff)
  have d: "\<not> isl (fst (set_entry this k d ttl s))"
    using set_entry_returns [of this k d ttl s] by auto
  from a b c d show ?thesis by blast
qed

theorem cache_failures_never_raise_witness:
  "lookup (world0\<lparr>dir := Some [(''k.json'', Garbage)]\<rparr>) (getCacheFilePath ''k'') = Some Garbage
   \<and> fst (get ''k'' (world0\<lparr>dir := Some [(''k.json'', Garbage)]\<rparr>)) = Inr (Val JNull)
   \<and> isl (fst (writeFileSync (getCacheFilePath ''k'')
           (JSON_stringify (Entry (JNum 1) (clock (world0\<lparr>dir := None\<rparr>))
              (ttl_or_default (Some 5) (defaultTTL \<lparr>cacheDir = ''c'', defaultTTL = 300000\<rparr>))))
           (world0\<lparr>dir := None\<rparr>)))
   \<and> fst (set_entry \<lparr>cacheDir = ''c'', defaultTTL = 300000\<rparr> ''k'' (JNum 1) (Some 5)
          (world0\<lparr>dir := None\<rparr>)) = Inr Undefined
   \<and> dir (snd (set_entry \<lparr>cacheDir = ''c'', defaultTTL = 300000\<rparr> ''k'' (JNum 1) (Some 5)
          (world0\<lparr>dir := None\<rparr>))) = None"
proof -
  have g: "lookup (world0\<lparr>dir := Some [(''k.json'', Garbage)]\<rparr>) (getCacheFilePath ''k'') = Some Garbage"
    by (simp add: lookup_def getCacheFilePath_def is_file_name_def world0_def)
  have w: "isl (fst (writeFileSync (getCacheFilePath ''k'')
           (JSON_stringify (Entry (JNum 1) (clock (world0\<lparr>dir := None\<rparr>))
              (ttl_or_default (Some 5) (defaultTTL \<lparr>cacheDir = ''c'', defaultTTL = 300000\<rparr>))))
           (world0\<lparr>dir := None\<rparr>)))"
    by (simp add: writeFileSync_def world0_def)
  show ?thesis
    using g w
      cache_failures_never_raise [of "world0\<lparr>dir := Some [(''k.json'', Garbage)]\<rparr>" "''k''"]
      cache_failures_never_raise [of "world0\<lparr>dir := None\<rparr>" "''k''" "JNum 1" "Some 5"
        "\<lparr>cacheDir = ''c'', defaultTTL = 300000\<rparr>"]
    by (simp add: world0_def)
qed

section \<open>Writing and reading an entry\<close>

lemma getCacheFilePath_metadata [simp]:
  "getCacheFilePath k = metadataPath \<longleftrightarrow> k = ''.metadata''"
  by (auto simp: getCacheFilePath_def metadataPath_def)

lemma lookup_tick [simp]: "lookup (tick d s) name = lookup s name"
  by (simp add: lookup_def tick_def)

lemma clock_tick [simp]: "clock (tick d s) = clock s + int d"
  by (simp add: tick_def)

lemma dir_tick [simp]: "dir (tick d s) = dir s"
  by (simp add: tick_def)






text \<open>
  C2. For a key \<open>k\<close> whose entry file exists and parses as an entry written at
  \<open>createdAt\<close> with TTL \<open>ttl\<close>: if \<open>now - createdAt > ttl\<close>, \<^verbatim>\<open>get(k)\<close> returns
  the miss value and unlinks the file of \<open>k\<close>, which no longer exists afterwards, and no
  other file changes; if \<open>now - createdAt \<le> ttl\<close>, it returns the stored data and the
  directory is unchanged.
\<close>

theorem get_purges_expired_entry:
  assumes "dir s = Some fs"
    and "lookup s (getCacheFilePath k) = Some (Doc (Entry d createdAt ttl))"
  shows "(clock s - createdAt > ttl \<longrightarrow>
            fst (get k s) = Inr (Val JNull)
            \<and> dir (snd (get k s)) = Some (AList.delete (getCacheFilePath k) fs)
            \<and> clock (snd (get k s)) = clock s
            \<and> fst (existsSync (getCacheFilePath k) (snd (get k s))) = Inr False
            \<and> (\<forall>name. name \<noteq> getCacheFilePath k \<longrightarrow>
                  lookup (snd (get k s)) name = lookup s name))
         \<and> (clock s - createdAt \<le> ttl \<longrightarrow>
            fst (get k s) = Inr (Val d)
            \<and> dir (snd (get k s)) = dir s
            \<and> clock (snd (get k s)) = clock s)"
proof (cases "clock s - createdAt > ttl")
  case True
  then have gt: "js_gt (js_sub (clock s) (entry_timestamp (Entry d createdAt ttl)))
                   (entry_ttl (Entry d createdAt ttl))"
    by simp
  show ?thesis
    using True assms(1)
    by (auto simp: get_expired [OF assms gt] existsSync_def lookup_def delete_conv')
next
  case False
  then have le: "\<not> js_gt (js_sub (clock s) (entry_timestamp (Entry d createdAt ttl)))
                   (entry_ttl (Entry d createdAt ttl))"
    by simp
  from get_live [OF assms(2) le] False show ?thesis by simp
qed

theorem get_purges_expired_entry_witness:
  "dir (world0\<lparr>dir := Some [(''k.json'', Doc (Entry (JStr ''v'') 900 50)), (''j.json'', Garbage)]\<rparr>)
     = Some [(''k.json'', Doc (Entry (JStr ''v'') 900 50)), (''j.json'', Garbage)]
   \<and> lookup (world0\<lparr>dir := Some [(''k.json'', Doc (Entry (JStr ''v'') 900 50)), (''j.json'', Garbage)]\<rparr>)
        (getCacheFilePath ''k'')
     = Some (Doc (Entry (JStr ''v'') 900 50))
   \<and> fst (get ''k'' (world0\<lparr>dir := Some [(''k.json'', Doc (Entry (JStr ''v'') 900 50)), (''j.json'', Garbage)]\<rparr>))
     = Inr (Val JNull)
   \<and> dir (snd (get ''k'' (world0\<lparr>dir := Some [(''k.json'', Doc (Entry (JStr ''v'') 900 50)), (''j.json'', Garbage)]\<rparr>)))
     = Some [(''j.json'', Garbage)]
   \<and> dir (world0\<lparr>dir := Some [(''k.json'', Doc (Entry (JStr ''v'') 900 100))]\<rparr>)
     = Some [(''k.json'', Doc (Entry (JStr ''v'') 900 100))]
   \<and> lookup (world0\<lparr>dir := Some [(''k.json'', Doc (Entry (JStr ''v'') 900 100))]\<rparr>)
        (getCacheFilePath ''k'')
     = Some (Doc (Entry (JStr ''v'') 900 100))
   \<and> fst (get ''k'' (world0\<lparr>dir := Some [(''k.json'', Doc (Entry (JStr ''v'') 900 100))]\<rparr>))
     = Inr (Val (JStr ''v''))
   \<and> dir (snd (get ''k'' (world0\<lparr>dir := Some [(''k.json'', Doc (Entry (JStr ''v'') 900 100))]\<rparr>)))
     = Some [(''k.json'', Doc (Entry (JStr ''v'') 900 100))]"
proof -
  let ?fs1 = "[(''k.json'', Doc (Entry (JStr ''v'') 900 50)), (''j.json'', Garbage)]"
  let ?fs2 = "[(''k.json'', Doc (Entry (JStr ''v'') 900 100))]"
  have d1: "dir (world0\<lparr>dir := Some ?fs1\<rparr>) = Some ?fs1" by simp
  have m1: "lookup (world0\<lparr>dir := Some ?fs1\<rparr>) (getCacheFilePath ''k'')
              = Some (Doc (Entry (JStr ''v'') 900 50))"
    by (simp add: lookup_def is_file_name_def getCacheFilePath_def)
  have d2: "dir (world0\<lparr>dir := Some ?fs2\<rparr>) = Some ?fs2" by simp
  have m2: "lookup (world0\<lparr>dir := Some ?fs2\<rparr>) (getCacheFilePath ''k'')
              = Some (Doc (Entry (JStr ''v'') 900 100))"
    by (simp add: lookup_def is_file_name_def getCacheFilePath_def)
  show ?thesis
    using d1 m1 d2 m2 get_purges_expired_entry [OF d1 m1] get_purges_expired_entry [OF d2 m2]
    by (simp add: world0_def getCacheFilePath_def)
qed




section \<open>Compute on a miss\<close>

lemma dir_executing [simp]: "dir (executing key s) = dir s"
  and clock_executing [simp]: "clock (executing key s) = clock s"
  and lookup_executing [simp]: "lookup (executing key s) name = lookup s name"
  by (simp_all add: executing_def lookup_def)

lemma getOrSet_hit:
  assumes "fst (get k s) = Inr c" and "c \<noteq> Val JNull"
  shows "getOrSet this k operation ttl (s, p) = (Inr c, snd (get k s), p)"
  using assms by (cases "get k s") (simp add: getOrSet_def)

lemma getOrSet_miss_rejected:
  assumes "fst (get k s) = Inr (Val JNull)" and "operation p = (Inl e, d, p')"
  shows "getOrSet this k operation ttl (s, p) = (Inl e, tick d (executing k (snd (get k s))), p')"
  using assms by (cases "get k s") (simp add: getOrSet_def console_error_def executing_def)

lemma getOrSet_miss_resolved:
  assumes "fst (get k s) = Inr (Val JNull)" and "operation p = (Inr v, d, p')"
  shows "getOrSet this k operation ttl (s, p) =
           (Inr (Val v), snd (set_entry this k v ttl (tick d (executing k (snd (get k s))))), p')"
proof -
  obtain s3 where "set_entry this k v ttl (tick d (executing k (snd (get k s)))) = (Inr Undefined, s3)"
    using set_entry_returns by blast
  with assms show ?thesis
    by (cases "get k s") (simp add: getOrSet_def console_error_def executing_def)
qed

lemma fst_get: "fst (get k s) = Inr (get_value (lookup s (getCacheFilePath k)) (clock s))"
  by (rule get_cases [where s = s and key = k]) (simp_all add: lookup_def)

lemma getCacheFilePath_inj [simp]: "getCacheFilePath k = getCacheFilePath k' \<longleftrightarrow> k = k'"
  by (simp add: getCacheFilePath_def)


lemma clock_get [simp]: "clock (snd (get k s)) = clock s"
  by (rule get_cases [where s = s and key = k]) auto



lemmas run_defs = getOrSet_def get_def set_entry_def updateMetadata_def delete_def io_defs
  ttl_or_default_def tick_def getCacheFilePath_def metadataPath_def is_cache_file_def
  endsWith_def lookup_def is_file_name_def world0_def this0_def counting_def rejecting_def






text \<open>
  C9, as amended. A miss is a normal return of \<^verbatim>\<open>null\<close>. A live entry whose data is
  not \<^verbatim>\<open>null\<close> reads differently from a miss, and \<^verbatim>\<open>getOrSet\<close> returns it without
  calling the producer. A live entry whose data is \<^verbatim>\<open>null\<close> reads exactly as a miss,
  and \<^verbatim>\<open>getOrSet\<close> calls the producer and returns what it yields.
\<close>

theorem null_entry_reads_as_miss:
  assumes "lookup s (getCacheFilePath k) = Some (Doc (Entry d t l))" and "clock s - t \<le> l"
    and "lookup s (getCacheFilePath k') = None"
  shows "fst (get k' s) = Inr (Val JNull)
         \<and> (d \<noteq> JNull \<longrightarrow>
              fst (get k s) \<noteq> fst (get k' s)
              \<and> fst (getOrSet this k operation ttl (s, p)) = Inr (Val d)
              \<and> snd (snd (getOrSet this k operation ttl (s, p))) = p)
         \<and> (d = JNull \<longrightarrow>
              fst (get k s) = fst (get k' s)
              \<and> fst (getOrSet this k operation ttl (s, p))
                  = (case fst (operation p) of Inl e \<Rightarrow> Inl e | Inr v \<Rightarrow> Inr (Val v))
              \<and> snd (snd (getOrSet this k operation ttl (s, p))) = snd (snd (operation p)))"
proof -
  have miss: "fst (get k' s) = Inr (Val JNull)"
    using assms(3) by (simp add: fst_get)
  have hit: "fst (get k s) = Inr (Val d)"
    using assms(1,2) by (simp add: fst_get)
  have a: "fst (get k s) \<noteq> fst (get k' s)
           \<and> fst (getOrSet this k operation ttl (s, p)) = Inr (Val d)
           \<and> snd (snd (getOrSet this k operation ttl (s, p))) = p" if "d \<noteq> JNull"
  proof -
    from that have "Val d \<noteq> Val JNull" by simp
    from getOrSet_hit [where this = this and operation = operation and ttl = ttl and p = p,
        OF hit this] that miss hit show ?thesis by simp
  qed
  have b: "fst (get k s) = fst (get k' s)
           \<and> fst (getOrSet this k operation ttl (s, p))
               = (case fst (operation p) of Inl e \<Rightarrow> Inl e | Inr v \<Rightarrow> Inr (Val v))
           \<and> snd (snd (getOrSet this k operation ttl (s, p))) = snd (snd (operation p))"
    if "d = JNull"
  proof -
    from that hit have null: "fst (get k s) = Inr (Val JNull)" by simp
    obtain r dly p' where op: "operation p = (r, dly, p')" by (cases "operation p") auto
    show ?thesis
    proof (cases r)
      case (Inl e)
      with op have "operation p = (Inl e, dly, p')" by simp
      from getOrSet_miss_rejected [where operation = operation and p = p, OF null this]
      show ?thesis using null miss op Inl by simp
    next
      case (Inr v)
      with op have "operation p = (Inr v, dly, p')" by simp
      from getOrSet_miss_resolved [where operation = operation and p = p, OF null this]
      show ?thesis using null miss op Inr by simp
    qed
  qed
  from miss a b show ?thesis by blast
qed

theorem null_entry_reads_as_miss_witness:
  "lookup (world0\<lparr>dir := Some [(''n.json'', Doc (Entry JNull 900 5000)), (''v.json'', Doc (Entry (JNum 3) 900 5000))]\<rparr>)
      (getCacheFilePath ''n'') = Some (Doc (Entry JNull 900 5000))
   \<and> lookup (world0\<lparr>dir := Some [(''n.json'', Doc (Entry JNull 900 5000)), (''v.json'', Doc (Entry (JNum 3) 900 5000))]\<rparr>)
      (getCacheFilePath ''v'') = Some (Doc (Entry (JNum 3) 900 5000))
   \<and> lookup (world0\<lparr>dir := Some [(''n.json'', Doc (Entry JNull 900 5000)), (''v.json'', Doc (Entry (JNum 3) 900 5000))]\<rparr>)
      (getCacheFilePath ''a'') = None
   \<and> fst (getOrSet this0 ''v'' (counting (JNum 7)) (Some 5000)
        (world0\<lparr>dir := Some [(''n.json'', Doc (Entry JNull 900 5000)), (''v.json'', Doc (Entry (JNum 3) 900 5000))]\<rparr>, 0))
       = Inr (Val (JNum 3))
   \<and> snd (snd (getOrSet this0 ''v'' (counting (JNum 7)) (Some 5000)
        (world0\<lparr>dir := Some [(''n.json'', Doc (Entry JNull 900 5000)), (''v.json'', Doc (Entry (JNum 3) 900 5000))]\<rparr>, 0)))
       = 0
   \<and> fst (getOrSet this0 ''n'' (counting (JNum 7)) (Some 5000)
        (world0\<lparr>dir := Some [(''n.json'', Doc (Entry JNull 900 5000)), (''v.json'', Doc (Entry (JNum 3) 900 5000))]\<rparr>, 0))
       = Inr (Val (JNum 7))
   \<and> snd (snd (getOrSet this0 ''n'' (counting (JNum 7)) (Some 5000)
        (world0\<lparr>dir := Some [(''n.json'', Doc (Entry JNull 900 5000)), (''v.json'', Doc (Entry (JNum 3) 900 5000))]\<rparr>, 0)))
       = 1"
proof -
  let ?s = "world0\<lparr>dir := Some [(''n.json'', Doc (Entry JNull 900 5000)), (''v.json'', Doc (Entry (JNum 3) 900 5000))]\<rparr>"
  have n: "lookup ?s (getCacheFilePath ''n'') = Some (Doc (Entry JNull 900 5000))"
    by (simp add: lookup_def is_file_name_def getCacheFilePath_def)
  have v: "lookup ?s (getCacheFilePath ''v'') = Some (Doc (Entry (JNum 3) 900 5000))"
    by (simp add: lookup_def is_file_name_def getCacheFilePath_def)
  have a: "lookup ?s (getCacheFilePath ''a'') = None"
    by (simp add: lookup_def is_file_name_def getCacheFilePath_def)
  have live: "clock ?s - 900 \<le> 5000" by (simp add: world0_def)
  show ?thesis
    using n v a
      null_entry_reads_as_miss [where this = this0 and operation = "counting (JNum 7)"
        and p = "0::nat" and ttl = "Some 5000", OF n live a]
      null_entry_reads_as_miss [where this = this0 and operation = "counting (JNum 7)"
        and p = "0::nat" and ttl = "Some 5000", OF v live a]
    by (simp add: counting_def)
qed

text \<open>
  C9 as stated fails: for the live entry \<^verbatim>\<open>n\<close> with data \<^verbatim>\<open>null\<close>, \<^verbatim>\<open>get\<close> returns
  the same value as for the absent key \<^verbatim>\<open>a\<close>, and \<^verbatim>\<open>getOrSet\<close> runs the producer
  and returns its value 7.
\<close>

theorem null_entry_counterexample:
  "fst (get ''n'' (world0\<lparr>dir := Some [(''n.json'', Doc (Entry JNull 900 5000))]\<rparr>))
     = fst (get ''a'' (world0\<lparr>dir := Some [(''n.json'', Doc (Entry JNull 900 5000))]\<rparr>))
   \<and> fst (getOrSet this0 ''n'' (counting (JNum 7)) (Some 5000)
        (world0\<lparr>dir := Some [(''n.json'', Doc (Entry JNull 900 5000))]\<rparr>, 0)) = Inr (Val (JNum 7))
   \<and> snd (snd (getOrSet this0 ''n'' (counting (JNum 7)) (Some 5000)
        (world0\<lparr>dir := Some [(''n.json'', Doc (Entry JNull 900 5000))]\<rparr>, 0))) = 1"
  by (simp add: run_defs)

section \<open>Clearing and sweeping the directory\<close>

lemma unlinkSync_present:
  "dir s = Some fs \<Longrightarrow> name \<in> fst ` set fs \<Longrightarrow> is_file_name name \<Longrightarrow>
   unlinkSync name s = (Inr (), s\<lparr>dir := Some (AList.delete name fs)\<rparr>)"
  by (simp add: unlinkSync_def lookup_def in_fst_set_iff)

lemma dom_delete: "fst ` set (AList.delete k al) = fst ` set al - {k}"
  by (auto simp: AList.delete_eq)

lemma world_dir_same: "dir s = Some fs \<Longrightarrow> s\<lparr>dir := Some fs\<rparr> = s"
  by simp

lemma clear_loop_run:
  assumes "dir s = Some fs" and "distinct names" and "set names \<subseteq> fst ` set fs"
    and "\<forall>nm \<in> set names. is_file_name nm"
  shows "clear_loop names n s =
           (Inr (n + length (filter is_cache_file names)),
            s\<lparr>dir := Some (filter (\<lambda>(nm, f). \<not> (nm \<in> set names \<and> is_cache_file nm)) fs)\<rparr>)"
  using assms
proof (induction names arbitrary: n s fs)
  case Nil
  then show ?case by (simp add: io_return_def)
next
  case (Cons name names)
  show ?case
  proof (cases "is_cache_file name")
    case True
    let ?fs1 = "AList.delete name fs"
    let ?s1 = "s\<lparr>dir := Some ?fs1\<rparr>"
    from Cons.prems have un: "unlinkSync name s = (Inr (), ?s1)"
      by (intro unlinkSync_present) auto
    have d1: "dir ?s1 = Some ?fs1" by simp
    from Cons.prems have dist: "distinct names" and sub: "set names \<subseteq> fst ` set ?fs1"
      and fn: "\<forall>nm \<in> set names. is_file_name nm"
      by (auto simp: dom_delete)
    have flt: "filter (\<lambda>(nm, f). \<not> (nm \<in> set names \<and> is_cache_file nm)) ?fs1
             = filter (\<lambda>(nm, f). \<not> (nm \<in> set (name # names) \<and> is_cache_file nm)) fs"
      using True by (auto simp: AList.delete_eq intro: filter_cong)
    from Cons.IH [OF d1 dist sub fn, of "n + 1"] un True flt show ?thesis
      by (simp add: io_bind_def)
  next
    case False
    from Cons.prems have dist: "distinct names" and sub: "set names \<subseteq> fst ` set fs"
      and fn: "\<forall>nm \<in> set names. is_file_name nm"
      by auto
    have flt: "filter (\<lambda>(nm, f). \<not> (nm \<in> set names \<and> is_cache_file nm)) fs
             = filter (\<lambda>(nm, f). \<not> (nm \<in> set (name # names) \<and> is_cache_file nm)) fs"
      using False by (auto intro: filter_cong)
    from Cons.IH [OF Cons.prems(1) dist sub fn, of n] False flt show ?thesis
      by simp
  qed
qed

lemma clear_run:
  assumes "dir s = Some fs" and "distinct (map fst fs)"
    and "\<forall>nm \<in> set (map fst fs). is_file_name nm"
  shows "clear s = (Inr Undefined,
           s\<lparr>dir := Some (AList.update metadataPath (Doc (Meta 0 (clock s)))
                          (filter (\<lambda>(nm, f). \<not> is_cache_file nm) fs)),
             console := console s @ [Info_Cache_cleared (length (filter is_cache_file (map fst fs)))]\<rparr>)"
proof -
  have sub: "set (map fst fs) \<subseteq> fst ` set fs" by simp
  have flt: "filter (\<lambda>(nm, f). \<not> (nm \<in> set (map fst fs) \<and> is_cache_file nm)) fs
           = filter (\<lambda>(nm, f). \<not> is_cache_file nm) fs"
    by (rule filter_cong) (auto simp: image_iff)
  have none: "filter is_cache_file (map fst (filter (\<lambda>(nm, f). \<not> is_cache_file nm) fs)) = []"
    by (auto simp: filter_empty_conv)
  have loop: "clear_loop (map fst fs) 0 s =
           (Inr (length (filter is_cache_file (map fst fs))),
            s\<lparr>dir := Some (filter (\<lambda>(nm, f). \<not> is_cache_file nm) fs)\<rparr>)"
    using clear_loop_run [OF assms(1,2) sub assms(3), of 0] flt by simp
  show ?thesis
    using assms(1) loop none
    by (simp add: clear_def try_catch_def io_bind_def readdirSync_def console_error_def
        io_return_def updateMetadata_dir)
qed

lemma map_of_filter_key:
  "map_of (filter (\<lambda>(nm, f). Q nm) fs) name = (if Q name then map_of fs name else None)"
  by (induction fs) auto

lemma is_cache_file_not_metadata: "is_cache_file name \<Longrightarrow> name \<noteq> metadataPath"
  unfolding is_cache_file_def metadataPath_def by auto

lemma getStats_dir:
  "dir s = Some fs \<Longrightarrow>
   getStats this s = (Inr \<lparr>totalEntries = length (filter is_cache_file (map fst fs)),
                          stats_cacheDir = cacheDir this,
                          stats_defaultTTL = defaultTTL this\<rparr>, s)"
  by (simp add: getStats_def io_defs)

lemma not_cache_file_metadata [simp]: "\<not> is_cache_file metadataPath"
  by (simp add: is_cache_file_def metadataPath_def)

lemma count_cache_files_update_metadata:
  "length (filter is_cache_file (map fst (AList.update metadataPath m fs)))
     = length (filter is_cache_file (map fst fs))"
  by (induction fs) (auto simp: is_cache_file_not_metadata)

text \<open>
  C8, as amended. In every state of an existing cache directory, \<^verbatim>\<open>clear()\<close> removes
  every entry file (every listed name that ends in \<^verbatim>\<open>.json\<close> and is not
  \<^verbatim>\<open>.metadata.json\<close>) and leaves every other file but the metadata file, which it
  rewrites; it returns no value (it is \<^verbatim>\<open>void\<close>), and the number of files it removed
  is what it logs; afterwards \<^verbatim>\<open>getStats().totalEntries\<close> is 0.
\<close>

theorem clear_removes_every_entry:
  assumes "dir s = Some fs" and "wf_world s"
  shows "fst (clear s) = Inr Undefined
         \<and> (\<forall>name. is_cache_file name \<longrightarrow> lookup (snd (clear s)) name = None)
         \<and> (\<forall>name. \<not> is_cache_file name \<and> name \<noteq> metadataPath \<longrightarrow>
               lookup (snd (clear s)) name = lookup s name)
         \<and> console (snd (clear s))
             = console s @ [Info_Cache_cleared (length (filter (\<lambda>(nm, f). is_cache_file nm) fs))]
         \<and> fst (getStats this (snd (clear s)))
             = Inr \<lparr>totalEntries = 0, stats_cacheDir = cacheDir this,
                    stats_defaultTTL = defaultTTL this\<rparr>"
proof -
  let ?fs' = "AList.update metadataPath (Doc (Meta 0 (clock s)))
                (filter (\<lambda>(nm, f). \<not> is_cache_file nm) fs)"
  have run: "clear s = (Inr Undefined,
           s\<lparr>dir := Some ?fs',
             console := console s @ [Info_Cache_cleared (length (filter is_cache_file (map fst fs)))]\<rparr>)"
    using assms by (intro clear_run) (simp_all add: wf_world_def wf_dir_def)
  have cnt: "length (filter is_cache_file (map fst fs))
               = length (filter (\<lambda>(nm, f). is_cache_file nm) fs)"
    by (induction fs) auto
  have gone: "map_of ?fs' name = None" if "is_cache_file name" for name
    using that is_cache_file_not_metadata [OF that]
    by (simp add: update_conv' map_of_filter_key)
  have kept: "map_of ?fs' name = map_of fs name"
    if "\<not> is_cache_file name" and "name \<noteq> metadataPath" for name
    using that by (simp add: update_conv' map_of_filter_key)
  have "filter is_cache_file (map fst (filter (\<lambda>(nm, f). \<not> is_cache_file nm) fs)) = []"
    by (auto simp: filter_empty_conv)
  then have none: "length (filter is_cache_file (map fst ?fs')) = 0"
    by (simp only: count_cache_files_update_metadata list.size)
  have stats: "fst (getStats this (snd (clear s)))
             = Inr \<lparr>totalEntries = 0, stats_cacheDir = cacheDir this,
                    stats_defaultTTL = defaultTTL this\<rparr>"
    using none by (simp add: run getStats_dir)
  have ret: "fst (clear s) = Inr Undefined" by (simp add: run)
  have "console (snd (clear s))
          = console s @ [Info_Cache_cleared (length (filter is_cache_file (map fst fs)))]"
    by (simp add: run)
  then have log: "console (snd (clear s))
             = console s @ [Info_Cache_cleared (length (filter (\<lambda>(nm, f). is_cache_file nm) fs))]"
    by (simp only: cnt)
  have l1: "\<forall>name. is_cache_file name \<longrightarrow> lookup (snd (clear s)) name = None"
    using gone by (simp add: run lookup_def)
  have l2: "\<forall>name. \<not> is_cache_file name \<and> name \<noteq> metadataPath \<longrightarrow>
               lookup (snd (clear s)) name = lookup s name"
    using kept assms(1) by (simp add: run lookup_def)
  from ret l1 l2 log stats show ?thesis by blast
qed

lemma cleanup_file_run:
  assumes "dir s = Some fs" and "map_of fs name = Some f" and "is_file_name name"
  shows "cleanup_file now name n s =
           (if stale now f
            then (Inr (n + 1),
                  s\<lparr>dir := Some (AList.delete name fs),
                    console := console s @ (if f = Garbage then [Warn_Invalid_cache_file name] else [])\<rparr>)
            else (Inr n, s))"
proof -
  from assms have "lookup s name = Some f" by (simp add: lookup_def)
  with assms(1) show ?thesis
    by (cases f) (simp_all add: cleanup_file_def io_defs lookup_def)
qed

lemma sweep_Nil [simp]:
  "swept now [] fs = fs" "sweep_count now [] fs = 0" "sweep_warnings [] fs = []"
  by (simp_all add: swept_def sweep_count_def sweep_warnings_def)

lemma sweep_Cons_removed:
  assumes "is_cache_file name" and "map_of fs name = Some f" and "stale now f"
    and "name \<notin> set names"
  shows "swept now names (AList.delete name fs) = swept now (name # names) fs"
    and "Suc (sweep_count now names (AList.delete name fs)) = sweep_count now (name # names) fs"
    and "(if f = Garbage then [Warn_Invalid_cache_file name] else [])
           @ sweep_warnings names (AList.delete name fs) = sweep_warnings (name # names) fs"
proof -
  let ?fs1 = "AList.delete name fs"
  have same: "map_of ?fs1 nm = map_of fs nm" if "nm \<in> set names" for nm
    using that assms(4) by (auto simp: delete_conv')
  have sa: "stale_at now ?fs1 nm = stale_at now fs nm" if "nm \<in> set names" for nm
    using that by (simp add: stale_at_def same)
  have st: "stale_at now fs name" using assms(2,3) by (simp add: stale_at_def)
  have "swept now names ?fs1
        = filter (\<lambda>(nm, f). \<not> (nm \<in> set names \<and> is_cache_file nm \<and> stale_at now fs nm)) ?fs1"
    unfolding swept_def by (rule filter_cong) (auto simp: sa)
  also have "\<dots> = swept now (name # names) fs"
    unfolding swept_def using assms(1) st by (auto simp: AList.delete_eq intro!: filter_cong)
  finally show "swept now names ?fs1 = swept now (name # names) fs" .
  have "filter (\<lambda>nm. is_cache_file nm \<and> stale_at now ?fs1 nm) names
             = filter (\<lambda>nm. is_cache_file nm \<and> stale_at now fs nm) names"
    by (rule filter_cong) (simp_all add: sa)
  then show "Suc (sweep_count now names ?fs1) = sweep_count now (name # names) fs"
    using assms(1) st by (simp add: sweep_count_def)
  have "filter (\<lambda>nm. is_cache_file nm \<and> map_of ?fs1 nm = Some Garbage) names
             = filter (\<lambda>nm. is_cache_file nm \<and> map_of fs nm = Some Garbage) names"
    by (rule filter_cong) (simp_all add: same)
  then show "(if f = Garbage then [Warn_Invalid_cache_file name] else [])
           @ sweep_warnings names ?fs1 = sweep_warnings (name # names) fs"
    using assms(1,2) by (simp add: sweep_warnings_def)
qed

lemma sweep_Cons_kept:
  assumes "\<not> (is_cache_file name \<and> stale now f)" and "map_of fs name = Some f"
  shows "swept now names fs = swept now (name # names) fs"
    and "sweep_count now names fs = sweep_count now (name # names) fs"
    and "sweep_warnings names fs = sweep_warnings (name # names) fs"
proof -
  have nst: "\<not> (is_cache_file name \<and> stale_at now fs name)"
    using assms by (simp add: stale_at_def)
  show "swept now names fs = swept now (name # names) fs"
    unfolding swept_def using nst by (auto intro!: filter_cong)
  show "sweep_count now names fs = sweep_count now (name # names) fs"
    using nst by (simp add: sweep_count_def)
  show "sweep_warnings names fs = sweep_warnings (name # names) fs"
    using assms by (auto simp: sweep_warnings_def)
qed

lemma cleanup_loop_run:
  assumes "dir s = Some fs" and "distinct names" and "set names \<subseteq> fst ` set fs"
    and "\<forall>nm \<in> set names. is_file_name nm"
  shows "cleanup_loop now names n s =
           (Inr (n + sweep_count now names fs),
            s\<lparr>dir := Some (swept now names fs),
              console := console s @ sweep_warnings names fs\<rparr>)"
  using assms
proof (induction names arbitrary: n s fs)
  case Nil
  then show ?case by (simp add: io_return_def)
next
  case (Cons name names)
  from Cons.prems have dist: "distinct names" and notin: "name \<notin> set names"
    and sub: "set names \<subseteq> fst ` set fs" and ex: "name \<in> fst ` set fs"
    and fn: "\<forall>nm \<in> set names. is_file_name nm" and fn1: "is_file_name name"
    by auto
  from ex obtain f where f: "map_of fs name = Some f"
    by (auto simp: in_fst_set_iff)
  show ?case
  proof (cases "is_cache_file name \<and> stale now f")
    case True
    let ?fs1 = "AList.delete name fs"
    let ?w = "if f = Garbage then [Warn_Invalid_cache_file name] else []"
    let ?s1 = "s\<lparr>dir := Some ?fs1, console := console s @ ?w\<rparr>"
    have step: "cleanup_file now name n s = (Inr (n + 1), ?s1)"
      using True by (simp add: cleanup_file_run [OF Cons.prems(1) f fn1])
    have d1: "dir ?s1 = Some ?fs1" by simp
    have sub1: "set names \<subseteq> fst ` set ?fs1"
      using sub notin by (auto simp: dom_delete)
    from True have c: "is_cache_file name" and st: "stale now f" by auto
    note eqs = sweep_Cons_removed [OF c f st notin]
    have "cleanup_loop now (name # names) n s = cleanup_loop now names (n + 1) ?s1"
      using c step by (simp add: io_bind_def)
    also have "\<dots> = (Inr (n + 1 + sweep_count now names ?fs1),
            ?s1\<lparr>dir := Some (swept now names ?fs1),
              console := console ?s1 @ sweep_warnings names ?fs1\<rparr>)"
      by (rule Cons.IH [OF d1 dist sub1 fn])
    also have "\<dots> = (Inr (n + sweep_count now (name # names) fs),
            s\<lparr>dir := Some (swept now (name # names) fs),
              console := console s @ sweep_warnings (name # names) fs\<rparr>)"
      using eqs(2) by (simp add: eqs(1) eqs(3) [symmetric])
    finally show ?thesis .
  next
    case False
    note eqs = sweep_Cons_kept [where names = names, OF False f]
    have "cleanup_loop now (name # names) n s = cleanup_loop now names n s"
      using False
      by (cases "is_cache_file name")
        (simp_all add: io_bind_def cleanup_file_run [OF Cons.prems(1) f fn1])
    also have "\<dots> = (Inr (n + sweep_count now names fs),
            s\<lparr>dir := Some (swept now names fs),
              console := console s @ sweep_warnings names fs\<rparr>)"
      by (rule Cons.IH [OF Cons.prems(1) dist sub fn])
    finally show ?thesis by (simp only: eqs)
  qed
qed

lemma cleanup_run:
  assumes "dir s = Some fs" and "distinct (map fst fs)"
    and "\<forall>nm \<in> set (map fst fs). is_file_name nm"
  shows "cleanup s = (Inr Undefined,
           if 0 < sweep_count (clock s) (map fst fs) fs
           then s\<lparr>dir := Some (AList.update metadataPath
                       (Doc (Meta (length (filter is_cache_file
                          (map fst (swept (clock s) (map fst fs) fs)))) (clock s)))
                       (swept (clock s) (map fst fs) fs)),
                  console := console s @ sweep_warnings (map fst fs) fs
                    @ [Info_Cache_cleanup (sweep_count (clock s) (map fst fs) fs)]\<rparr>
           else s\<lparr>dir := Some (swept (clock s) (map fst fs) fs),
                  console := console s @ sweep_warnings (map fst fs) fs\<rparr>)"
proof -
  have sub: "set (map fst fs) \<subseteq> fst ` set fs" by simp
  have loop: "cleanup_loop (clock s) (map fst fs) 0 s =
           (Inr (sweep_count (clock s) (map fst fs) fs),
            s\<lparr>dir := Some (swept (clock s) (map fst fs) fs),
              console := console s @ sweep_warnings (map fst fs) fs\<rparr>)"
    using cleanup_loop_run [OF assms(1,2) sub assms(3), of "clock s" 0] by simp
  show ?thesis
    using assms(1) loop
    by (simp add: cleanup_def try_catch_def io_bind_def readdirSync_def console_error_def
        io_return_def Date_now_def updateMetadata_dir)
qed

lemma stale_at_distinct:
  "distinct (map fst fs) \<Longrightarrow> (nm, f) \<in> set fs \<Longrightarrow> stale_at now fs nm = stale now f"
  by (simp add: stale_at_def)

lemma sweep_count_distinct:
  assumes "distinct (map fst fs)"
  shows "sweep_count now (map fst fs) fs
           = length (filter (\<lambda>(nm, f). is_cache_file nm \<and> stale now f) fs)"
proof -
  have "filter (\<lambda>nm. is_cache_file nm \<and> stale_at now fs nm) (map fst fs)
          = map fst (filter ((\<lambda>nm. is_cache_file nm \<and> stale_at now fs nm) \<circ> fst) fs)"
    by (rule filter_map)
  also have "filter ((\<lambda>nm. is_cache_file nm \<and> stale_at now fs nm) \<circ> fst) fs
          = filter (\<lambda>(nm, f). is_cache_file nm \<and> stale now f) fs"
    by (rule filter_cong) (auto simp: stale_at_distinct [OF assms])
  finally show ?thesis by (simp add: sweep_count_def)
qed

lemma distinct_fst_unique:
  assumes "distinct (map fst fs)" and "(a, b) \<in> set fs" and "(a, c) \<in> set fs"
  shows "b = c"
  using assms by (metis map_of_is_SomeI option.inject)

lemma sweep_warnings_distinct:
  assumes "distinct (map fst fs)"
  shows "sweep_warnings (map fst fs) fs
           = map (\<lambda>(nm, f). Warn_Invalid_cache_file nm)
               (filter (\<lambda>(nm, f). is_cache_file nm \<and> f = Garbage) fs)"
proof -
  have "filter (\<lambda>nm. is_cache_file nm \<and> map_of fs nm = Some Garbage) (map fst fs)
          = map fst (filter ((\<lambda>nm. is_cache_file nm \<and> map_of fs nm = Some Garbage) \<circ> fst) fs)"
    by (rule filter_map)
  also have "filter ((\<lambda>nm. is_cache_file nm \<and> map_of fs nm = Some Garbage) \<circ> fst) fs
          = filter (\<lambda>(nm, f). is_cache_file nm \<and> f = Garbage) fs"
    using assms by (intro filter_cong) (auto dest: distinct_fst_unique)
  finally show ?thesis by (simp add: sweep_warnings_def split_beta)
qed

lemma map_of_swept:
  "map_of (swept now (map fst fs) fs) name
     = (if is_cache_file name \<and> stale_at now fs name then None else map_of fs name)"
proof -
  have "map_of (swept now (map fst fs) fs) name
          = (if \<not> (name \<in> set (map fst fs) \<and> is_cache_file name \<and> stale_at now fs name)
             then map_of fs name else None)"
    unfolding swept_def by (rule map_of_filter_key)
  also have "\<dots> = (if is_cache_file name \<and> stale_at now fs name then None else map_of fs name)"
    by (auto simp: stale_at_def map_of_eq_None_iff [symmetric] split: option.splits)
  finally show ?thesis .
qed

text \<open>
  C7, as amended. In every state of an existing cache directory, \<^verbatim>\<open>cleanup()\<close> removes
  exactly the entry files that are unparsable or whose TTL has lapsed
  (\<open>now - createdAt > ttl\<close>), leaves every live entry as it is and every other file but
  the metadata file untouched; it returns no value (it is \<^verbatim>\<open>void\<close>); when it removed
  at least one file it logs their number, and when it removed none the directory is
  unchanged.
\<close>

theorem cleanup_removes_stale_entries:
  assumes "dir s = Some fs" and "wf_world s"
  shows "fst (cleanup s) = Inr Undefined
         \<and> (\<forall>name f. is_cache_file name \<and> lookup s name = Some f \<longrightarrow>
               lookup (snd (cleanup s)) name = (if stale (clock s) f then None else Some f))
         \<and> (\<forall>name. \<not> is_cache_file name \<and> name \<noteq> metadataPath \<longrightarrow>
               lookup (snd (cleanup s)) name = lookup s name)
         \<and> (0 < length (filter (\<lambda>(nm, f). is_cache_file nm \<and> stale (clock s) f) fs) \<longrightarrow>
               console (snd (cleanup s))
                 = console s
                   @ map (\<lambda>(nm, f). Warn_Invalid_cache_file nm)
                       (filter (\<lambda>(nm, f). is_cache_file nm \<and> f = Garbage) fs)
                   @ [Info_Cache_cleanup
                        (length (filter (\<lambda>(nm, f). is_cache_file nm \<and> stale (clock s) f) fs))])
         \<and> (length (filter (\<lambda>(nm, f). is_cache_file nm \<and> stale (clock s) f) fs) = 0 \<longrightarrow>
               dir (snd (cleanup s)) = dir s)"
proof -
  let ?names = "map fst fs"
  let ?c = "sweep_count (clock s) ?names fs"
  let ?fs' = "swept (clock s) ?names fs"
  from assms have dist: "distinct (map fst fs)" and fn: "\<forall>nm \<in> set (map fst fs). is_file_name nm"
    by (simp_all add: wf_world_def wf_dir_def)
  note run = cleanup_run [OF assms(1) dist fn]
  have cnt: "?c = length (filter (\<lambda>(nm, f). is_cache_file nm \<and> stale (clock s) f) fs)"
    by (rule sweep_count_distinct [OF dist])
  have warn: "sweep_warnings ?names fs
               = map (\<lambda>(nm, f). Warn_Invalid_cache_file nm)
                   (filter (\<lambda>(nm, f). is_cache_file nm \<and> f = Garbage) fs)"
    by (rule sweep_warnings_distinct [OF dist])
  have ret: "fst (cleanup s) = Inr Undefined" by (simp add: run)
  have look: "lookup (snd (cleanup s)) name = (if is_file_name name then map_of ?fs' name else None)"
    if "name \<noteq> metadataPath" for name
    using that by (simp add: run lookup_def update_conv')
  have l1: "lookup (snd (cleanup s)) name = (if stale (clock s) f then None else Some f)"
    if "is_cache_file name" and "lookup s name = Some f" for name f
  proof -
    from lookup_SomeD [OF that(2)] assms(1)
    have m: "map_of fs name = Some f" and nm: "is_file_name name" by auto
    then have "stale_at (clock s) fs name = stale (clock s) f" by (simp add: stale_at_def)
    with that(1) m nm show ?thesis
      by (simp add: look [OF is_cache_file_not_metadata [OF that(1)]] map_of_swept)
  qed
  have l2: "lookup (snd (cleanup s)) name = lookup s name"
    if "\<not> is_cache_file name" and "name \<noteq> metadataPath" for name
  proof -
    have "lookup (snd (cleanup s)) name = (if is_file_name name then map_of ?fs' name else None)"
      by (rule look [OF that(2)])
    also have "\<dots> = (if is_file_name name then map_of fs name else None)"
      using that(1) by (simp add: map_of_swept)
    also have "\<dots> = lookup s name" using assms(1) by (simp add: lookup_def)
    finally show ?thesis .
  qed
  have log: "console (snd (cleanup s))
                 = console s @ sweep_warnings ?names fs @ [Info_Cache_cleanup ?c]" if "0 < ?c"
    using that by (simp add: run)
  have same: "dir (snd (cleanup s)) = dir s" if "?c = 0"
  proof -
    from that have "filter (\<lambda>nm. is_cache_file nm \<and> stale_at (clock s) fs nm) ?names = []"
      unfolding sweep_count_def by (simp only: length_0_conv)
    then have "\<forall>nm \<in> set ?names. \<not> (is_cache_file nm \<and> stale_at (clock s) fs nm)"
      by (simp add: filter_empty_conv)
    then have "?fs' = fs"
      unfolding swept_def by (intro filter_True) auto
    with that assms(1) show ?thesis by (simp add: run)
  qed
  from ret l1 l2 log same show ?thesis
    unfolding cnt [symmetric] warn [symmetric] by blast
qed

lemmas sweep_defs = cleanup_def cleanup_file_def clear_def getStats_def run_defs world5_def world2_def

theorem cleanup_removes_stale_entries_witness:
  "dir world5 = Some [(''a.json'', Doc (Entry (JNum 1) 0 50)),
                      (''b.json'', Doc (Entry (JNum 2) 0 50)),
                      (''c.json'', Doc (Entry (JNum 3) 900 50)),
                      (''d.json'', Doc (Entry (JNum 4) 900 5000)),
                      (''e.json'', Doc (Entry (JNum 5) 1000 5000))]
   \<and> wf_world world5
   \<and> fst (cleanup world5) = Inr Undefined
   \<and> lookup (snd (cleanup world5)) ''a.json'' = None
   \<and> lookup (snd (cleanup world5)) ''d.json'' = Some (Doc (Entry (JNum 4) 900 5000))
   \<and> console (snd (cleanup world5)) = [Info_Cache_cleanup 3]
   \<and> fst (getStats this0 (snd (cleanup world5)))
       = Inr \<lparr>totalEntries = 2, stats_cacheDir = ''/tmp/ccxt-mcp-cache-test'',
              stats_defaultTTL = 10000\<rparr>"
proof -
  let ?fs = "[(''a.json'', Doc (Entry (JNum 1) 0 50)),
              (''b.json'', Doc (Entry (JNum 2) 0 50)),
              (''c.json'', Doc (Entry (JNum 3) 900 50)),
              (''d.json'', Doc (Entry (JNum 4) 900 5000)),
              (''e.json'', Doc (Entry (JNum 5) 1000 5000))]"
  have d: "dir world5 = Some ?fs" by (simp add: world5_def)
  have wf: "wf_world world5" by (simp add: wf_world_def wf_dir_def world5_def is_file_name_def)
  have st: "fst (getStats this0 (snd (cleanup world5)))
       = Inr \<lparr>totalEntries = 2, stats_cacheDir = ''/tmp/ccxt-mcp-cache-test'',
              stats_defaultTTL = 10000\<rparr>"
    by (simp add: sweep_defs)
  have ca: "is_cache_file ''a.json''" and cd: "is_cache_file ''d.json''"
    by (simp_all add: is_cache_file_def endsWith_def)
  have la: "lookup world5 ''a.json'' = Some (Doc (Entry (JNum 1) 0 50))"
    and ld: "lookup world5 ''d.json'' = Some (Doc (Entry (JNum 4) 900 5000))"
    by (simp_all add: lookup_def is_file_name_def world5_def)
  have clk: "clock world5 = 1000" by (simp add: world5_def)
  show ?thesis
    using d wf st ca cd la ld cleanup_removes_stale_entries [OF d wf]
    by (simp add: clk is_cache_file_def endsWith_def world5_def)
qed

text \<open>
  C7 as stated fails: with three lapsed and two live entries \<^verbatim>\<open>cleanup()\<close> removes the
  three, and what it returns is \<^verbatim>\<open>undefined\<close>, not the count 3.
\<close>

theorem cleanup_returns_no_count_counterexample:
  "dir (snd (cleanup world5)) = Some [(''d.json'', Doc (Entry (JNum 4) 900 5000)),
                                      (''e.json'', Doc (Entry (JNum 5) 1000 5000)),
                                      (''.metadata.json'', Doc (Meta 2 1000))]
   \<and> fst (cleanup world5) = Inr Undefined
   \<and> fst (cleanup world5) \<noteq> Inr (Val (JNum 3))"
  by (simp add: sweep_defs)

theorem clear_removes_every_entry_witness:
  "dir world2 = Some [(''d.json'', Doc (Entry (JNum 4) 900 5000)),
                      (''e.json'', Doc (Entry (JNum 5) 1000 5000)),
                      (''.metadata.json'', Doc (Meta 2 1000))]
   \<and> wf_world world2
   \<and> fst (clear world2) = Inr Undefined
   \<and> lookup (snd (clear world2)) ''d.json'' = None
   \<and> lookup (snd (clear world2)) ''e.json'' = None
   \<and> console (snd (clear world2)) = [Info_Cache_cleared 2]
   \<and> fst (getStats this0 (snd (clear world2)))
       = Inr \<lparr>totalEntries = 0, stats_cacheDir = ''/tmp/ccxt-mcp-cache-test'',
              stats_defaultTTL = 10000\<rparr>"
proof -
  let ?fs = "[(''d.json'', Doc (Entry (JNum 4) 900 5000)),
              (''e.json'', Doc (Entry (JNum 5) 1000 5000)),
              (''.metadata.json'', Doc (Meta 2 1000))]"
  have d: "dir world2 = Some ?fs" by (simp add: world2_def)
  have wf: "wf_world world2" by (simp add: wf_world_def wf_dir_def world2_def is_file_name_def)
  have cd: "is_cache_file ''d.json''" and ce: "is_cache_file ''e.json''"
    by (simp_all add: is_cache_file_def endsWith_def)
  show ?thesis
    using d wf cd ce clear_removes_every_entry [OF d wf, of this0]
    by (simp add: is_cache_file_def endsWith_def world2_def this0_def)
qed

text \<open>
  C8 as stated fails: with two entries present \<^verbatim>\<open>clear()\<close> removes both, and what it
  returns is \<^verbatim>\<open>undefined\<close>, not the count 2.
\<close>

theorem clear_returns_no_count_counterexample:
  "dir (snd (clear world2)) = Some [(''.metadata.json'', Doc (Meta 0 1000))]
   \<and> fst (clear world2) = Inr Undefined
   \<and> fst (clear world2) \<noteq> Inr (Val (JNum 2))"
  by (simp add: sweep_defs)

section \<open>Keys depend on the order of the parameters\<close>

text \<open>
  Evaluating the digest in the kernel: every addition and rotation is reduced to a
  32-bit numeral as soon as it is computed, and each block of each message is a lemma
  of its own.
\<close>

lemma rotr_norm: "rotr n x = word_of_nat (unat (drop_bit n x OR push_bit (32 - n) x))"
  by (simp add: rotr_def)

lemma shuffle_norm:
  "shuffle t1 t2 (a, b, c, d, e, f, g, h)
     = (word_of_nat (unat (t1 + t2)), a, b, c, word_of_nat (unat (d + t1)), e, f, g)"
  by simp

lemma next_w_norm:
  "next_w win = word_of_nat (unat (ssig1 (win ! 14) + win ! 9 + ssig0 (win ! 1) + win ! 0))"
  by (simp add: next_w_def)

lemmas sha_eval = K256_def next_w_norm ssig0_def ssig1_def Ch_def Maj_def bsig0_def bsig1_def
  rotr_norm shuffle_norm

lemma blocks_Nil: "blocks st [] = st"
  by (simp add: blocks.simps)

lemma blocks_16:
  "blocks st (w0 # w1 # w2 # w3 # w4 # w5 # w6 # w7 # w8 # w9 # w10 # w11 # w12 # w13 # w14 # w15 # ws)
     = blocks (compress st [w0, w1, w2, w3, w4, w5, w6, w7, w8, w9, w10, w11, w12, w13, w14, w15]) ws"
  by (subst blocks.simps) simp

text \<open>The digest of the message \<^verbatim>\<open>abc\<close> is the one of the standard.\<close>

lemma words_abc:
  "be32 (pad (map of_char ''abc''))
     = [1633837952, 0, 0, 0, 0, 0, 0, 0, 0, 0, 0, 0, 0, 0, 0, 24]"
  by code_simp

lemma rounds_abc:
  "rounds K256
     [1633837952, 0, 0, 0, 0, 0, 0, 0, 0, 0, 0, 0, 0, 0, 0, 24]
     (1779033703, 3144134277, 1013904242, 2773480762, 1359893119, 2600822924, 528734635,
      1541459225)
   = (1349398616, 3550093669, 80891244, 3093179625, 1593118500, 4212265488, 2492278198,
      2518632596)"
  by (simp add: sha_eval del: shuffle.simps)

lemma compress_abc:
  "compress (1779033703, 3144134277, 1013904242, 2773480762, 1359893119, 2600822924, 528734635,
      1541459225)
     [1633837952, 0, 0, 0, 0, 0, 0, 0, 0, 0, 0, 0, 0, 0, 0, 24]
   = (3128432319, 2399260650, 1094795486, 1571693091, 2953011619, 2518121116, 3021012833,
      4060091821)"
  by (simp add: compress_def rounds_abc)

lemma sha256_abc:
  "sha256 ''abc'' = ''ba7816bf8f01cfea414140de5dae2223b00361a396177a9cb410ff61f20015ad''"
  unfolding sha256_def words_abc
  by (simp add: H256_def blocks_16 blocks_Nil compress_abc hex32_def hexdigit_def)


















text \<open>
  Every generated key ends in the 64 hexadecimal digits of the digest, so it is never
  the reserved name \<^verbatim>\<open>.metadata\<close>, and the name of its file passes the test for
  entry files.
\<close>

lemma length_hex32 [simp]: "length (hex32 w) = 8"
  by (simp add: hex32_def)

lemma length_hex_digest [simp]: "length (hex_digest st) = 64"
  by (cases st rule: hex_digest.cases) simp

lemma length_sha256 [simp]: "length (sha256 s) = 64"
  by (simp add: sha256_def)

lemma is_cache_file_key: "is_cache_file (getCacheFilePath k) \<longleftrightarrow> k \<noteq> ''.metadata''"
  by (auto simp: is_cache_file_def getCacheFilePath_def endsWith_def)

lemma generated_key_is_entry_key:
  "generateCacheKey N I P \<noteq> ''.metadata''"
  "is_cache_file (getCacheFilePath (generateCacheKey N I P))"
proof -
  have "length (generateCacheKey N I P) \<ge> 66"
    by (simp add: generateCacheKey_def)
  then show "generateCacheKey N I P \<noteq> ''.metadata''" by auto
  then show "is_cache_file (getCacheFilePath (generateCacheKey N I P))"
    by (simp add: is_cache_file_key)
qed

section \<open>The directory of a constructed cache\<close>

text \<open>
  The constructor creates the directory when it is missing, and every operation of
  the cache leaves an existing directory in place, with distinct file names. The
  properties above that assume an existing directory hold in every state that the
  cache itself reaches.
\<close>

lemma wf_worldI: "dir s = Some fs \<Longrightarrow> wf_dir fs \<Longrightarrow> wf_world s"
  by (simp add: wf_world_def)

lemma wf_worldE:
  assumes "wf_world s"
  obtains fs where "dir s = Some fs" and "wf_dir fs"
  using assms by (auto simp: wf_world_def split: option.splits)

lemma wf_dir_update: "wf_dir fs \<Longrightarrow> is_file_name name \<Longrightarrow> wf_dir (AList.update name f fs)"
  by (auto simp: wf_dir_def distinct_update update_keys)

lemma wf_dir_filter: "wf_dir fs \<Longrightarrow> wf_dir (filter P fs)"
  by (auto simp: wf_dir_def distinct_map_filter)

lemma wf_dir_delete: "wf_dir fs \<Longrightarrow> wf_dir (AList.delete name fs)"
  by (simp add: AList.delete_eq wf_dir_filter)

lemma ensureCacheDir_creates: "dir (snd (ensureCacheDir s)) \<noteq> None"
  by (cases "dir s")
    (simp_all add: ensureCacheDir_def existsSync_cacheDir_def mkdirSync_def io_defs)

lemma wf_ensureCacheDir: "dir s = None \<or> wf_world s \<Longrightarrow> wf_world (snd (ensureCacheDir s))"
  by (cases "dir s")
    (simp_all add: ensureCacheDir_def existsSync_cacheDir_def mkdirSync_def io_defs
      wf_world_def wf_dir_def)

lemma wf_world0: "wf_world world0"
  by (simp add: wf_world_def wf_dir_def world0_def)

lemma wf_tick: "wf_world s \<Longrightarrow> wf_world (tick d s)"
  by (simp add: wf_world_def)

lemma wf_get: "wf_world s \<Longrightarrow> wf_world (snd (get k s))"
  by (rule get_cases [where s = s and key = k]) (auto simp: wf_world_def wf_dir_delete)

lemma wf_delete: "wf_world s \<Longrightarrow> wf_world (snd (delete k s))"
proof (cases "lookup s (getCacheFilePath k)")
  case None
  then show "wf_world s \<Longrightarrow> wf_world (snd (delete k s))" by (simp add: delete_absent)
next
  case (Some f)
  then obtain fs where "dir s = Some fs"
    using lookup_SomeD by blast
  with Some show "wf_world s \<Longrightarrow> wf_world (snd (delete k s))"
    by (simp add: delete_present wf_world_def wf_dir_delete)
qed

lemma wf_set_entry: "wf_world s \<Longrightarrow> wf_world (snd (set_entry this k d ttl s))"
  by (erule wf_worldE; cases "is_file_name (getCacheFilePath k)")
    (simp_all add: set_entry_dir set_entry_bad_name wf_world_def wf_dir_update)

lemma wf_clear: "wf_world s \<Longrightarrow> wf_world (snd (clear s))"
proof (erule wf_worldE)
  fix fs
  assume d: "dir s = Some fs" and wf: "wf_dir fs"
  then have "distinct (map fst fs)" and "\<forall>nm \<in> set (map fst fs). is_file_name nm"
    by (simp_all add: wf_dir_def)
  from clear_run [OF d this] wf show ?thesis
    by (simp add: wf_world_def wf_dir_update wf_dir_filter)
qed

lemma wf_cleanup: "wf_world s \<Longrightarrow> wf_world (snd (cleanup s))"
proof (erule wf_worldE)
  fix fs
  assume d: "dir s = Some fs" and wf: "wf_dir fs"
  then have "distinct (map fst fs)" and "\<forall>nm \<in> set (map fst fs). is_file_name nm"
    by (simp_all add: wf_dir_def)
  from cleanup_run [OF d this] wf show ?thesis
    by (simp add: wf_world_def wf_dir_update wf_dir_filter swept_def)
qed

lemma wf_getOrSet:
  assumes "wf_world s"
  shows "wf_world (fst (snd (getOrSet this k operation ttl (s, p))))"
proof -
  obtain c s1 where g: "get k s = (Inr c, s1)"
    using get_returns by blast
  with wf_get [OF assms, of k] have s1: "wf_world s1" by simp
  obtain r d p' where op: "operation p = (r, d, p')"
    by (cases "operation p") auto
  have s2: "wf_world (tick d (executing k s1))"
    using s1 by (simp add: wf_world_def)
  show ?thesis
  proof (cases "c = Val JNull")
    case False
    with g s1 show ?thesis by (simp add: getOrSet_def)
  next
    case True
    show ?thesis
    proof (cases r)
      case (Inl e)
      with True g op s2 show ?thesis
        by (simp add: getOrSet_def console_error_def executing_def)
    next
      case (Inr v)
      obtain s3 where st: "set_entry this k v ttl (tick d (executing k s1)) = (Inr Undefined, s3)"
        using set_entry_returns by blast
      with wf_set_entry [OF s2, of this k v ttl] have "wf_world s3" by simp
      with True g op Inr st show ?thesis
        by (simp add: getOrSet_def console_error_def executing_def)
    qed
  qed
qed

end
